theory Spec2Isabelle
  imports Main
begin

section \<open>Certificate records\<close>

text \<open>
  A row as \<^verbatim>\<open>normalizeRow\<close> (csvParser.js) produces it: only the mapped columns are
  present, each one a trimmed string. A missing key reads as \<^verbatim>\<open>undefined\<close>, modelled
  by \<open>None\<close>.
\<close>

record raw_row =
  studentName :: "string option"
  studentId :: "string option"
  degree :: "string option"
  institution :: "string option"
  issueDate :: "string option"
  email :: "string option"

text \<open>
  A record of a job: \<^verbatim>\<open>{ ...cert, _row: i + 1 }\<close> as \<^verbatim>\<open>validateBatch\<close> builds it,
  with the stage fields that \<^verbatim>\<open>processPipeline\<close> assigns later (absent until assigned).
\<close>

record certificate = raw_row +
  row :: nat
  certId :: "string option"
  documentHash :: "string option"
  ipfsHash :: "string option"
  ipfsPinned :: "bool option"
  ipfsGateway :: "string option"
  ipfsError :: "string option"

text \<open>JavaScript truthiness of a string-valued property: defined and not empty.\<close>

fun truthy :: "string option \<Rightarrow> bool" where
  "truthy None = False"
| "truthy (Some s) = (s \<noteq> [])"

section \<open>Chain client: \<^verbatim>\<open>issueBatch\<close> (blockchainService.js)\<close>

text \<open>
  The arguments of one \<^verbatim>\<open>contract.issueCertificate(...)\<close> call, with the explicit nonce
  of the overrides object. The timestamp is \<open>None\<close> when the date does not parse (NaN).
\<close>

record chain_call =
  callCertId :: "string option"
  callStudentName :: "string option"
  callStudentId :: "string option"
  callDegree :: "string option"
  callInstitution :: "string option"
  callTimestamp :: "int option"
  callIpfsHash :: string
  callNonce :: nat

record tx_handle =
  hash :: string

record tx_receipt =
  blockNumber :: nat
  gasUsed :: nat

text \<open>
  The network as the loop sees it. Every answer is a parameter, so a theorem about all
  networks covers every run. A thrown error is \<open>Inl\<close> of its message
  (\<^verbatim>\<open>err.reason || err.message\<close>).
  \<^item> \<open>getNonce 0\<close> answers the fetch before the loop, \<open>getNonce (Suc i)\<close> the fetch in
    the \<^verbatim>\<open>catch\<close> block of record \<open>i\<close>;
  \<^item> \<open>submitTx i call\<close> answers the call for record \<open>i\<close>: an error raised before the
    network accepted it, or the transaction handle;
  \<^item> \<open>waitTx i tx\<close> answers \<^verbatim>\<open>tx.wait()\<close>: an error after acceptance, or the receipt;
  \<^item> \<open>dateSeconds\<close> is \<^verbatim>\<open>Math.floor(new Date(d).getTime() / 1000)\<close>.
\<close>

record network =
  getNonce :: "nat \<Rightarrow> string + nat"
  submitTx :: "nat \<Rightarrow> chain_call \<Rightarrow> string + tx_handle"
  waitTx :: "nat \<Rightarrow> tx_handle \<Rightarrow> string + tx_receipt"
  dateSeconds :: "string option \<Rightarrow> int option"

text \<open>One entry of \<^verbatim>\<open>results\<close>: the two object shapes the loop pushes.\<close>

datatype chain_result =
  ChainSuccess nat "string option" string nat nat
| ChainFailed nat "string option" string

fun resultIndex :: "chain_result \<Rightarrow> nat" where
  "resultIndex (ChainSuccess i c h b g) = i"
| "resultIndex (ChainFailed i c e) = i"

fun resultCertId :: "chain_result \<Rightarrow> string option" where
  "resultCertId (ChainSuccess i c h b g) = c"
| "resultCertId (ChainFailed i c e) = c"

fun isSuccess :: "chain_result \<Rightarrow> bool" where
  "isSuccess (ChainSuccess i c h b g) = True"
| "isSuccess (ChainFailed i c e) = False"

text \<open>
  The local variables of \<^verbatim>\<open>issueBatch\<close>, and \<open>calls\<close>: the calls the network received,
  in order, each with its answer (the effect of the loop on the network).
\<close>

record batch_state =
  results :: "chain_result list"
  succeeded :: nat
  failed :: nat
  nonce :: nat
  calls :: "(chain_call \<times> (string + tx_handle)) list"

definition mkCall :: "network \<Rightarrow> certificate \<Rightarrow> nat \<Rightarrow> chain_call" where
  "mkCall net cert n =
     \<lparr> callCertId = certId cert,
       callStudentName = studentName cert,
       callStudentId = studentId cert,
       callDegree = degree cert,
       callInstitution = institution cert,
       callTimestamp = dateSeconds net (issueDate cert),
       callIpfsHash = (case ipfsHash cert of None \<Rightarrow> [] | Some h \<Rightarrow> h),
       callNonce = n \<rparr>"

text \<open>
  The \<^verbatim>\<open>catch\<close> block: count the failure, push the failed entry, then fetch the nonce
  again; when that fetch throws, the current value stays.
\<close>

definition catchBlock :: "network \<Rightarrow> nat \<Rightarrow> certificate \<Rightarrow> string \<Rightarrow> batch_state \<Rightarrow> batch_state" where
  "catchBlock net i cert err st =
     (let st' = st \<lparr> failed := failed st + 1,
                     results := results st @ [ChainFailed i (certId cert) err] \<rparr>
      in case getNonce net (Suc i) of
           Inr n \<Rightarrow> st' \<lparr> nonce := n \<rparr>
         | Inl e \<Rightarrow> st')"

text \<open>The body of the \<^verbatim>\<open>for\<close> loop for record \<open>i\<close>.\<close>

definition issueStep :: "network \<Rightarrow> nat \<Rightarrow> certificate \<Rightarrow> batch_state \<Rightarrow> batch_state" where
  "issueStep net i cert st =
     (let call = mkCall net cert (nonce st) in
      case submitTx net i call of
        Inl err \<Rightarrow> catchBlock net i cert err (st \<lparr> calls := calls st @ [(call, Inl err)] \<rparr>)
      | Inr tx \<Rightarrow>
          (let st1 = st \<lparr> nonce := nonce st + 1, calls := calls st @ [(call, Inr tx)] \<rparr> in
           case waitTx net i tx of
             Inl err \<Rightarrow> catchBlock net i cert err st1
           | Inr rc \<Rightarrow>
               st1 \<lparr> succeeded := succeeded st1 + 1,
                     results := results st1 @
                       [ChainSuccess i (certId cert) (hash tx) (blockNumber rc) (gasUsed rc)] \<rparr>))"

fun issueLoop :: "network \<Rightarrow> nat \<Rightarrow> certificate list \<Rightarrow> batch_state \<Rightarrow> batch_state" where
  "issueLoop net i [] st = st"
| "issueLoop net i (c # cs) st = issueLoop net (Suc i) cs (issueStep net i c st)"

text \<open>
  \<^verbatim>\<open>issueBatch\<close>: the nonce is fetched once before the loop; an error of that fetch is
  not caught and leaves the function. The result is the state after the loop
  (\<^verbatim>\<open>results\<close>, \<^verbatim>\<open>succeeded\<close>, \<^verbatim>\<open>failed\<close>; \<^verbatim>\<open>total\<close> is the length of the input),
  together with the last value of the local \<^verbatim>\<open>nonce\<close>. The progress callback only
  assigns the progress descriptor of the job, which the caller overwrites afterwards; it
  is left out.
\<close>

definition issueBatch :: "network \<Rightarrow> certificate list \<Rightarrow> string + batch_state" where
  "issueBatch net certs =
     (case getNonce net 0 of
        Inl e \<Rightarrow> Inl e
      | Inr n0 \<Rightarrow>
          Inr (issueLoop net 0 certs
                 \<lparr> results = [], succeeded = 0, failed = 0, nonce = n0, calls = [] \<rparr>))"

definition total :: "certificate list \<Rightarrow> nat" where
  "total certs = length certs"

text \<open>The number of submissions the network accepted.\<close>

fun isAccepted :: "chain_call \<times> (string + tx_handle) \<Rightarrow> bool" where
  "isAccepted (call, Inr tx) = True"
| "isAccepted (call, Inl err) = False"

definition accepted :: "batch_state \<Rightarrow> nat" where
  "accepted st = length (filter isAccepted (calls st))"

section \<open>Identifier generator: \<^verbatim>\<open>generateCertificateId\<close> (blockchainService.js)\<close>

text \<open>Decimal rendering of a natural number, as \<^verbatim>\<open>String(n)\<close> gives it.\<close>

definition digitChar :: "nat \<Rightarrow> char" where
  "digitChar d = char_of (48 + d)"

function showNat :: "nat \<Rightarrow> string" where
  "showNat n = (if n < 10 then [digitChar n] else showNat (n div 10) @ [digitChar (n mod 10)])"
  by pat_completeness auto
termination
  by (relation "measure (\<lambda>n. n)") auto

declare showNat.simps [simp del]

text \<open>\<^verbatim>\<open>s.padStart(n, c)\<close> for a one-character pad string.\<close>

definition padStart :: "nat \<Rightarrow> char \<Rightarrow> string \<Rightarrow> string" where
  "padStart n c s = replicate (n - length s) c @ s"

text \<open>\<^verbatim>\<open>s.substring(a, b)\<close> for \<open>a \<le> b\<close>.\<close>

definition substring :: "nat \<Rightarrow> nat \<Rightarrow> string \<Rightarrow> string" where
  "substring a b s = take (b - a) (drop a s)"

definition upperChar :: "char \<Rightarrow> char" where
  "upperChar c =
     (if 97 \<le> (of_char c :: nat) \<and> (of_char c :: nat) \<le> 122
      then char_of ((of_char c :: nat) - 32) else c)"

definition toUpperCase :: "string \<Rightarrow> string" where
  "toUpperCase s = map upperChar s"

text \<open>
  What one call of the generator reads from outside: the answer of
  \<^verbatim>\<open>contract.getTotalCertificates()\<close> (an error is not caught), the year of the clock,
  and the text \<^verbatim>\<open>Math.random().toString(36)\<close>. The count is taken below \<open>2 ^ 53\<close>,
  where \<^verbatim>\<open>Number(count) + 1\<close> is exact.
\<close>

record id_source =
  totalCertificates :: "string + nat"
  fullYear :: nat
  randomBase36 :: string

definition randomSuffix :: "string \<Rightarrow> string" where
  "randomSuffix r = toUpperCase (substring 2 5 r)"

definition sequenceText :: "nat \<Rightarrow> string" where
  "sequenceText count = padStart 3 (CHR ''0'') (showNat (count + 1))"

definition generateCertificateId :: "id_source \<Rightarrow> string + string" where
  "generateCertificateId src =
     (case totalCertificates src of
        Inl e \<Rightarrow> Inl e
      | Inr count \<Rightarrow>
          Inr (''CERT-'' @ showNat (fullYear src) @ ''-'' @ sequenceText count @ ''-'' @
               randomSuffix (randomBase36 src)))"

text \<open>Reading the format back: the fields between dashes, and the value of a digit string.\<close>

fun splitDash :: "string \<Rightarrow> string list" where
  "splitDash [] = [[]]"
| "splitDash (c # cs) =
     (if c = CHR ''-'' then [] # splitDash cs
      else (case splitDash cs of [] \<Rightarrow> [[c]] | w # ws \<Rightarrow> (c # w) # ws))"

definition isDigit :: "char \<Rightarrow> bool" where
  "isDigit c = (48 \<le> (of_char c :: nat) \<and> (of_char c :: nat) \<le> 57)"

definition readNat :: "string \<Rightarrow> nat" where
  "readNat s = foldl (\<lambda>acc c. 10 * acc + ((of_char c :: nat) - 48)) 0 s"

definition isBase36Lower :: "char \<Rightarrow> bool" where
  "isBase36Lower c = (isDigit c \<or> (97 \<le> (of_char c :: nat) \<and> (of_char c :: nat) \<le> 122))"

definition isBase36Upper :: "char \<Rightarrow> bool" where
  "isBase36Upper c = (isDigit c \<or> (65 \<le> (of_char c :: nat) \<and> (of_char c :: nat) \<le> 90))"

text \<open>
  The texts \<^verbatim>\<open>Math.random().toString(36)\<close> can give for a number in \<open>[0, 1)\<close>:
  \<^verbatim>\<open>0\<close> alone, or \<^verbatim>\<open>0.\<close> followed by at least one digit of base 36.
\<close>

definition isRandomText :: "string \<Rightarrow> bool" where
  "isRandomText r =
     (r = ''0'' \<or> (take 2 r = ''0.'' \<and> drop 2 r \<noteq> [] \<and> list_all isBase36Lower (drop 2 r)))"

section \<open>Batch pipeline: \<^verbatim>\<open>processPipeline\<close> (bulkController.js)\<close>

subsection \<open>Collaborators\<close>

type_synonym bytes = string

record pdf_file =
  pdfFilePath :: string
  pdfFileName :: string
  pdfSize :: nat
  pdfBuffer :: bytes

text \<open>One entry of \<^verbatim>\<open>bulkGeneratePDFs\<close>: the success shape or the failed shape.\<close>

datatype pdf_result =
  PdfSuccess "string option" pdf_file
| PdfFailed "string option" string

fun pdfCertId :: "pdf_result \<Rightarrow> string option" where
  "pdfCertId (PdfSuccess c f) = c"
| "pdfCertId (PdfFailed c e) = c"

fun pdfSucceeded :: "pdf_result \<Rightarrow> bool" where
  "pdfSucceeded (PdfSuccess c f) = True"
| "pdfSucceeded (PdfFailed c e) = False"

record ipfs_upload =
  uploadHash :: string
  uploadPinned :: bool
  uploadGateway :: "string option"

record qr_file =
  qrFilePath :: string
  qrFileName :: string
  qrSize :: nat

datatype qr_result =
  QrSuccess "string option" qr_file
| QrFailed "string option" string

fun qrCertId :: "qr_result \<Rightarrow> string option" where
  "qrCertId (QrSuccess c f) = c"
| "qrCertId (QrFailed c e) = c"

fun qrSucceeded :: "qr_result \<Rightarrow> bool" where
  "qrSucceeded (QrSuccess c f) = True"
| "qrSucceeded (QrFailed c e) = False"

record email_job =
  jobTo :: "string option"
  jobStudentName :: "string option"
  jobCertId :: "string option"
  jobDegree :: "string option"
  jobInstitution :: "string option"
  jobIssueDate :: "string option"
  jobPdfBuffer :: "bytes option"
  jobPdfFileName :: "string option"

record email_batch =
  emailOutcomes :: "(nat \<times> string option \<times> bool) list"
  emailSent :: nat
  emailFailed :: nat

text \<open>
  Everything outside the process, as parameters; \<open>Inl\<close> is a thrown error's message.
  \<^item> \<open>idSource i\<close>: what the identifier generator reads when called for record \<open>i\<close>;
  \<^item> \<open>browserLaunch\<close>, \<open>browserClose\<close>: the error of \<^verbatim>\<open>puppeteer.launch\<close> and of
    \<^verbatim>\<open>browser.close()\<close>, if any (neither is caught);
  \<^item> \<open>renderPdf t i cert\<close>: the body of the \<^verbatim>\<open>try\<close> block of \<^verbatim>\<open>bulkGeneratePDFs\<close> for
    record \<open>i\<close> (render, print, write the file) with template \<open>t\<close>;
  \<^item> \<open>uploadBuffer i buffer fileName certId documentHash\<close>: \<^verbatim>\<open>ipfsService.uploadBuffer\<close>
    for record \<open>i\<close>;
  \<^item> \<open>chain\<close>: the network of \<^verbatim>\<open>issueBatch\<close>;
  \<^item> \<open>saveQRToFile k certId\<close>: the \<^verbatim>\<open>try\<close> block of \<^verbatim>\<open>bulkGenerateQR\<close> for its
    \<open>k\<close>-th input;
  \<^item> \<open>sendCertificateEmail k job\<close>: the flag \<^verbatim>\<open>sent\<close> of the result, or the error that
    \<^verbatim>\<open>sendCertificateEmail\<close> throws outside its own \<^verbatim>\<open>try\<close>.
\<close>

record services =
  idSource :: "nat \<Rightarrow> id_source"
  browserLaunch :: "string option"
  browserClose :: "string option"
  renderPdf :: "string \<Rightarrow> nat \<Rightarrow> certificate \<Rightarrow> string + pdf_file"
  uploadBuffer :: "nat \<Rightarrow> bytes \<Rightarrow> string \<Rightarrow> string option \<Rightarrow> string \<Rightarrow> string + ipfs_upload"
  chain :: network
  saveQRToFile :: "nat \<Rightarrow> string option \<Rightarrow> string + qr_file"
  isEmailConfigured :: bool
  sendCertificateEmail :: "nat \<Rightarrow> email_job \<Rightarrow> string + bool"

text \<open>\<^verbatim>\<open>xs[i]\<close>: \<^verbatim>\<open>undefined\<close> out of range.\<close>

definition nthOpt :: "'a list \<Rightarrow> nat \<Rightarrow> 'a option" where
  "nthOpt xs i = (if i < length xs then Some (xs ! i) else None)"

subsection \<open>Phase 1: identifiers\<close>

text \<open>
  \<^verbatim>\<open>if (!certs[i].certId) certs[i].certId = await generateCertificateId()\<close>, for each
  record in order. The records are written in place, so the result is the array as the
  loop leaves it, together with the error of the generator if one was thrown: that error
  is not caught, the loop stops there and the records after it stay as they were.
\<close>

fun generateIds :: "services \<Rightarrow> nat \<Rightarrow> certificate list \<Rightarrow> string option \<times> certificate list" where
  "generateIds env i [] = (None, [])"
| "generateIds env i (c # cs) =
     (if truthy (certId c) then
        (case generateIds env (Suc i) cs of (e, cs') \<Rightarrow> (e, c # cs'))
      else
        (case generateCertificateId (idSource env i) of
           Inl e \<Rightarrow> (Some e, c # cs)
         | Inr cid \<Rightarrow>
             (case generateIds env (Suc i) cs of
                (e, cs') \<Rightarrow> (e, c \<lparr> certId := Some cid \<rparr> # cs'))))"

subsection \<open>Phase 2: documents (\<^verbatim>\<open>bulkGeneratePDFs\<close>, pdfService.js)\<close>

fun renderLoop :: "services \<Rightarrow> string \<Rightarrow> nat \<Rightarrow> certificate list \<Rightarrow> pdf_result list" where
  "renderLoop env t i [] = []"
| "renderLoop env t i (c # cs) =
     (case renderPdf env t i c of
        Inr f \<Rightarrow> PdfSuccess (certId c) f
      | Inl e \<Rightarrow> PdfFailed (certId c) e) # renderLoop env t (Suc i) cs"

definition bulkGeneratePDFs :: "services \<Rightarrow> string \<Rightarrow> certificate list \<Rightarrow> string + pdf_result list" where
  "bulkGeneratePDFs env t certs =
     (case browserLaunch env of
        Some e \<Rightarrow> Inl e
      | None \<Rightarrow>
          (case browserClose env of
             Some e \<Rightarrow> Inl e
           | None \<Rightarrow> Inr (renderLoop env t 0 certs)))"

subsection \<open>Phase 3: content store\<close>

text \<open>
  \<^verbatim>\<open>ipfsService.computeContentHash(buffer)\<close>. The module ipfsService.js exports
  \<^verbatim>\<open>uploadBuffer\<close>, \<^verbatim>\<open>uploadFile\<close>, \<^verbatim>\<open>uploadJSON\<close>, \<^verbatim>\<open>getGatewayUrl\<close> and
  \<^verbatim>\<open>isPinataConfigured\<close>, and nothing named \<^verbatim>\<open>computeContentHash\<close>: the property is
  \<^verbatim>\<open>undefined\<close> and calling it throws a TypeError, for every buffer.
\<close>

definition computeContentHash :: "bytes \<Rightarrow> string + string" where
  "computeContentHash buffer = Inl ''ipfsService.computeContentHash is not a function''"

text \<open>
  The body of the upload loop for record \<open>i\<close>. A success entry always carries its buffer
  (a \<^verbatim>\<open>Buffer\<close> object, truthy), so the guard is the status alone. Inside the \<^verbatim>\<open>try\<close>:
  the digest is computed, then assigned, then the upload is awaited; an error of any of
  these steps goes to the \<^verbatim>\<open>catch\<close>, which sets the empty content identifier and the
  error text.
\<close>

definition storeStep :: "services \<Rightarrow> nat \<Rightarrow> certificate \<Rightarrow> pdf_result \<Rightarrow> certificate" where
  "storeStep env i cert p =
     (case p of
        PdfFailed c e \<Rightarrow> cert
      | PdfSuccess c f \<Rightarrow>
          (case computeContentHash (pdfBuffer f) of
             Inl e \<Rightarrow> cert \<lparr> ipfsHash := Some [], ipfsError := Some e \<rparr>
           | Inr dh \<Rightarrow>
               (let cert1 = cert \<lparr> documentHash := Some dh \<rparr>
                in case uploadBuffer env i (pdfBuffer f) (pdfFileName f) (certId cert1) dh of
                     Inr u \<Rightarrow> cert1 \<lparr> ipfsHash := Some (uploadHash u),
                                      ipfsPinned := Some (uploadPinned u),
                                      ipfsGateway := uploadGateway u \<rparr>
                   | Inl e \<Rightarrow> cert1 \<lparr> ipfsHash := Some [], ipfsError := Some e \<rparr>)))"

text \<open>
  The loop reads \<^verbatim>\<open>pdfResults[i].status\<close>: on a missing entry that is a TypeError,
  outside any \<^verbatim>\<open>try\<close>.
\<close>

fun storeLoop :: "services \<Rightarrow> pdf_result list \<Rightarrow> nat \<Rightarrow> certificate list \<Rightarrow> string + certificate list" where
  "storeLoop env pdfs i [] = Inr []"
| "storeLoop env pdfs i (c # cs) =
     (case nthOpt pdfs i of
        None \<Rightarrow> Inl ''TypeError''
      | Some p \<Rightarrow>
          (case storeLoop env pdfs (Suc i) cs of
             Inl e \<Rightarrow> Inl e
           | Inr cs' \<Rightarrow> Inr (storeStep env i c p # cs')))"

subsection \<open>Phase 5: verification codes (\<^verbatim>\<open>bulkGenerateQR\<close>, qrService.js)\<close>

text \<open>\<^verbatim>\<open>certs.filter((c, i) => blockchainResults.results[i]?.status === "success")\<close>\<close>

definition successfulCerts :: "certificate list \<Rightarrow> chain_result list \<Rightarrow> certificate list" where
  "successfulCerts certs rs = map fst (filter (\<lambda>(c, r). isSuccess r) (zip certs rs))"

fun bulkGenerateQR :: "services \<Rightarrow> nat \<Rightarrow> certificate list \<Rightarrow> qr_result list" where
  "bulkGenerateQR env k [] = []"
| "bulkGenerateQR env k (c # cs) =
     (case saveQRToFile env k (certId c) of
        Inr f \<Rightarrow> QrSuccess (certId c) f
      | Inl e \<Rightarrow> QrFailed (certId c) e) # bulkGenerateQR env (Suc k) cs"

subsection \<open>Phase 6: notification (\<^verbatim>\<open>bulkSendEmails\<close>, emailService.js)\<close>

definition emailJobs :: "pdf_result list \<Rightarrow> certificate list \<Rightarrow> email_job list" where
  "emailJobs pdfs succ =
     map (\<lambda>c.
       \<lparr> jobTo = email c,
         jobStudentName = studentName c,
         jobCertId = certId c,
         jobDegree = degree c,
         jobInstitution = institution c,
         jobIssueDate = issueDate c,
         jobPdfBuffer = (case find (\<lambda>p. pdfCertId p = certId c) pdfs of
                           Some (PdfSuccess ci f) \<Rightarrow> Some (pdfBuffer f)
                         | _ \<Rightarrow> None),
         jobPdfFileName = (case find (\<lambda>p. pdfCertId p = certId c) pdfs of
                             Some (PdfSuccess ci f) \<Rightarrow> Some (pdfFileName f)
                           | _ \<Rightarrow> None) \<rparr>)
       (filter (\<lambda>c. truthy (email c)) succ)"

fun bulkSendEmails :: "services \<Rightarrow> nat \<Rightarrow> email_job list \<Rightarrow> email_batch \<Rightarrow> string + email_batch" where
  "bulkSendEmails env k [] acc = Inr acc"
| "bulkSendEmails env k (j # js) acc =
     (case sendCertificateEmail env k j of
        Inl e \<Rightarrow> Inl e
      | Inr ok \<Rightarrow>
          bulkSendEmails env (Suc k) js
            \<lparr> emailOutcomes = emailOutcomes acc @ [(k, jobCertId j, ok)],
              emailSent = (if ok then emailSent acc + 1 else emailSent acc),
              emailFailed = (if ok then emailFailed acc else emailFailed acc + 1) \<rparr>)"

subsection \<open>Result compilation\<close>

datatype stage_status = StageSuccess | StageFailed | StageSkipped

record chain_outcome =
  bcStatus :: stage_status
  bcTxHash :: "string option"
  bcBlockNumber :: "nat option"
  bcGasUsed :: "nat option"
  bcError :: "string option"

record pdf_outcome =
  pdfStatus :: stage_status
  pdfOutFileName :: "string option"
  pdfOutFilePath :: "string option"

record ipfs_outcome =
  ipfsOutHash :: "string option"
  ipfsOutDocumentHash :: "string option"
  ipfsOutPinned :: bool
  ipfsOutGateway :: "string option"

record qr_outcome =
  qrStatus :: stage_status
  qrOutFileName :: "string option"

record result_row =
  resRow :: nat
  resCertId :: "string option"
  resStudentName :: "string option"
  resStudentId :: "string option"
  resDegree :: "string option"
  resInstitution :: "string option"
  resIssueDate :: "string option"
  resEmail :: "string option"
  blockchain :: chain_outcome
  pdf :: pdf_outcome
  ipfs :: ipfs_outcome
  qr :: qr_outcome

text \<open>\<^verbatim>\<open>s || null\<close> on a string, \<^verbatim>\<open>n || null\<close> on a number.\<close>

definition strOrNull :: "string option \<Rightarrow> string option" where
  "strOrNull s = (if truthy s then s else None)"

definition numOrNull :: "nat \<Rightarrow> nat option" where
  "numOrNull n = (if n = 0 then None else Some n)"

fun chainOutcome :: "chain_result option \<Rightarrow> chain_outcome" where
  "chainOutcome None =
     \<lparr> bcStatus = StageSkipped, bcTxHash = None, bcBlockNumber = None, bcGasUsed = None,
       bcError = None \<rparr>"
| "chainOutcome (Some (ChainSuccess i c h b g)) =
     \<lparr> bcStatus = StageSuccess, bcTxHash = strOrNull (Some h), bcBlockNumber = numOrNull b,
       bcGasUsed = numOrNull g, bcError = None \<rparr>"
| "chainOutcome (Some (ChainFailed i c e)) =
     \<lparr> bcStatus = StageFailed, bcTxHash = None, bcBlockNumber = None, bcGasUsed = None,
       bcError = strOrNull (Some e) \<rparr>"

fun pdfOutcome :: "pdf_result option \<Rightarrow> pdf_outcome" where
  "pdfOutcome None =
     \<lparr> pdfStatus = StageSkipped, pdfOutFileName = None, pdfOutFilePath = None \<rparr>"
| "pdfOutcome (Some (PdfSuccess c f)) =
     \<lparr> pdfStatus = StageSuccess, pdfOutFileName = strOrNull (Some (pdfFileName f)),
       pdfOutFilePath = strOrNull (Some (pdfFilePath f)) \<rparr>"
| "pdfOutcome (Some (PdfFailed c e)) =
     \<lparr> pdfStatus = StageFailed, pdfOutFileName = None, pdfOutFilePath = None \<rparr>"

fun qrOutcome :: "qr_result option \<Rightarrow> qr_outcome" where
  "qrOutcome None = \<lparr> qrStatus = StageSkipped, qrOutFileName = None \<rparr>"
| "qrOutcome (Some (QrSuccess c f)) =
     \<lparr> qrStatus = StageSuccess, qrOutFileName = strOrNull (Some (qrFileName f)) \<rparr>"
| "qrOutcome (Some (QrFailed c e)) = \<lparr> qrStatus = StageFailed, qrOutFileName = None \<rparr>"

text \<open>
  The object pushed for record \<open>i\<close>: the chain and document entries are read by
  position, the verification-code entry by \<^verbatim>\<open>qrResults.find((q) => q.certId === cert.certId)\<close>.
\<close>

definition compileRow ::
  "chain_result list \<Rightarrow> pdf_result list \<Rightarrow> qr_result list \<Rightarrow> nat \<Rightarrow> certificate \<Rightarrow> result_row" where
  "compileRow bcs pdfs qrs i cert =
     \<lparr> resRow = row cert,
       resCertId = certId cert,
       resStudentName = studentName cert,
       resStudentId = studentId cert,
       resDegree = degree cert,
       resInstitution = institution cert,
       resIssueDate = issueDate cert,
       resEmail = strOrNull (email cert),
       blockchain = chainOutcome (nthOpt bcs i),
       pdf = pdfOutcome (nthOpt pdfs i),
       ipfs = \<lparr> ipfsOutHash = strOrNull (ipfsHash cert),
                ipfsOutDocumentHash = strOrNull (documentHash cert),
                ipfsOutPinned = (case ipfsPinned cert of Some b \<Rightarrow> b | None \<Rightarrow> False),
                ipfsOutGateway = strOrNull (ipfsGateway cert) \<rparr>,
       qr = qrOutcome (find (\<lambda>q. qrCertId q = certId cert) qrs) \<rparr>"

fun compileResults ::
  "chain_result list \<Rightarrow> pdf_result list \<Rightarrow> qr_result list \<Rightarrow> nat \<Rightarrow> certificate list \<Rightarrow> result_row list" where
  "compileResults bcs pdfs qrs i [] = []"
| "compileResults bcs pdfs qrs i (c # cs) =
     compileRow bcs pdfs qrs i c # compileResults bcs pdfs qrs (Suc i) cs"

subsection \<open>Jobs\<close>

datatype job_status = Validated | Processing | Completed | JobFailed

record progress =
  phase :: string
  current :: nat
  progressTotal :: nat
  percent :: nat

record summary =
  summaryTotal :: nat
  blockchainSuccess :: nat
  blockchainFailed :: nat
  pdfsGenerated :: nat
  qrCodesGenerated :: nat
  emailsSent :: nat
  emailsFailed :: nat

record job =
  jobId :: string
  status :: job_status
  records :: "certificate list"
  jobProgress :: "progress option"
  jobResults :: "result_row list option"
  jobSummary :: "summary option"
  jobError :: "string option"

text \<open>
  \<^verbatim>\<open>processPipeline\<close>. \<open>Inl\<close> is the rejection of the promise: an error that no
  per-record \<^verbatim>\<open>try\<close> caught, which the caller turns into the status \<^verbatim>\<open>failed\<close> (the
  job of such a run is not followed further). \<open>Inr\<close> is the job as the function leaves
  it when it runs to its end. The records are the array
  the phases write into. Of the progress descriptor only the last assignment is kept (the
  earlier ones are overwritten); removing the uploaded file does not touch the job.
\<close>

definition processPipeline :: "services \<Rightarrow> job \<Rightarrow> string \<Rightarrow> bool \<Rightarrow> string + job" where
  "processPipeline env job templateName sendEmails =
     (case generateIds env 0 (records job) of
        (Some e, partial) \<Rightarrow> Inl e
      | (None, certs1) \<Rightarrow>
     (case bulkGeneratePDFs env templateName certs1 of
        Inl e \<Rightarrow> Inl e
      | Inr pdfResults \<Rightarrow>
     (case storeLoop env pdfResults 0 certs1 of
        Inl e \<Rightarrow> Inl e
      | Inr certs \<Rightarrow>
     (case issueBatch (chain env) certs of
        Inl e \<Rightarrow> Inl e
      | Inr blockchainResults \<Rightarrow>
     (let succ = successfulCerts certs (results blockchainResults);
          qrResults = bulkGenerateQR env 0 succ
      in
     (case (if sendEmails \<and> isEmailConfigured env
            then (case bulkSendEmails env 0 (emailJobs pdfResults succ)
                         \<lparr> emailOutcomes = [], emailSent = 0, emailFailed = 0 \<rparr> of
                    Inl e \<Rightarrow> Inl e
                  | Inr b \<Rightarrow> Inr (Some b))
            else Inr None) of
        Inl e \<Rightarrow> Inl e
      | Inr emailResults \<Rightarrow>
          Inr (job \<lparr> status := Completed,
                     records := certs,
                     jobProgress := Some \<lparr> phase = ''completed'', current = length certs,
                                           progressTotal = length certs, percent = 100 \<rparr>,
                     jobResults := Some (compileResults (results blockchainResults)
                                           pdfResults qrResults 0 certs),
                     jobSummary := Some
                       \<lparr> summaryTotal = length certs,
                         blockchainSuccess = succeeded blockchainResults,
                         blockchainFailed = failed blockchainResults,
                         pdfsGenerated = length (filter pdfSucceeded pdfResults),
                         qrCodesGenerated = length (filter qrSucceeded qrResults),
                         emailsSent = (case emailResults of Some b \<Rightarrow> emailSent b | None \<Rightarrow> 0),
                         emailsFailed = (case emailResults of Some b \<Rightarrow> emailFailed b | None \<Rightarrow> 0)
                       \<rparr> \<rparr>)))))))"

text \<open>
  \<^verbatim>\<open>getJobStatus\<close>: the response body for a job of the store, \<open>None\<close> for the 404 answer.
\<close>

record status_response =
  respJobId :: string
  respStatus :: job_status
  respTotalRecords :: nat
  respProgress :: "progress option"
  respSummary :: "summary option"
  respResults :: "result_row list option"
  respError :: "string option"

definition getJobStatus :: "(string \<rightharpoonup> job) \<Rightarrow> string \<Rightarrow> status_response option" where
  "getJobStatus jobs jid =
     (case jobs jid of
        None \<Rightarrow> None
      | Some job \<Rightarrow>
          Some \<lparr> respJobId = jobId job,
                 respStatus = status job,
                 respTotalRecords = length (records job),
                 respProgress = jobProgress job,
                 respSummary = (if status job = Completed then jobSummary job else None),
                 respResults = (if status job = Completed then jobResults job else None),
                 respError = (if status job = JobFailed then jobError job else None) \<rparr>)"

section \<open>Record validator: \<^verbatim>\<open>validateCertificate\<close>, \<^verbatim>\<open>validateBatch\<close> (validator.js)\<close>

text \<open>
  Strings are taken over the code units below 256. White space, for \<^verbatim>\<open>trim\<close> and for
  \<^verbatim>\<open>\s\<close>: tab, line feed, vertical tab, form feed, carriage return, space, no-break space.
\<close>

definition isSpace :: "char \<Rightarrow> bool" where
  "isSpace c = ((of_char c :: nat) \<in> {9, 10, 11, 12, 13, 32, 160})"

definition trim :: "string \<Rightarrow> string" where
  "trim s = rev (dropWhile isSpace (rev (dropWhile isSpace s)))"

definition strOf :: "string option \<Rightarrow> string" where
  "strOf s = (case s of None \<Rightarrow> [] | Some t \<Rightarrow> t)"

text \<open>\<^verbatim>\<open>!v || v.trim().length === 0\<close>\<close>

definition blank :: "string option \<Rightarrow> bool" where
  "blank v = (\<not> truthy v \<or> trim (strOf v) = [])"

text \<open>\<^verbatim>\<open>/^[^\s@]+@[^\s@]+\.[^\s@]+$/.test(s)\<close>\<close>

definition plainChar :: "char \<Rightarrow> bool" where
  "plainChar c = (\<not> isSpace c \<and> c \<noteq> CHR ''@'')"

definition emailRegexTest :: "string \<Rightarrow> bool" where
  "emailRegexTest s =
     (takeWhile plainChar s \<noteq> [] \<and>
      (case dropWhile plainChar s of
         [] \<Rightarrow> False
       | c # host \<Rightarrow> c = CHR ''@'' \<and> list_all plainChar host \<and> CHR ''.'' \<in> set (butlast (tl host))))"

text \<open>\<^verbatim>\<open>/\d{4,}/.test(s)\<close>: \<open>k\<close> counts the digits just read.\<close>

fun fourDigits :: "nat \<Rightarrow> string \<Rightarrow> bool" where
  "fourDigits k [] = (4 \<le> k)"
| "fourDigits k (c # cs) =
     (4 \<le> k \<or> (if isDigit c then fourDigits (Suc k) cs else fourDigits 0 cs))"

text \<open>The messages, one constructor for each template of the source.\<close>

datatype message =
  NameRequired
| NameTooLong
| IdRequired
| DegreeRequired
| InstitutionRequired
| DateRequired
| InvalidDate string
| InvalidEmail string
| NameHasNumbers
| DuplicateStudentId string nat
| DuplicateEmail string nat

record issue =
  field :: string
  message :: message
  issueRow :: nat

record cert_validation =
  valid :: bool
  errors :: "issue list"
  warnings :: "issue list"

text \<open>
  \<open>validDate s\<close> stands for \<^verbatim>\<open>!isNaN(new Date(s).getTime())\<close>, the date parser of the
  runtime.
\<close>

definition validateCertificate ::
  "(string \<Rightarrow> bool) \<Rightarrow> 'a raw_row_scheme \<Rightarrow> nat \<Rightarrow> cert_validation" where
  "validateCertificate validDate cert index =
     (let errs =
        (if blank (studentName cert)
         then [\<lparr> field = ''studentName'', message = NameRequired, issueRow = index + 1 \<rparr>]
         else if 200 < length (strOf (studentName cert))
         then [\<lparr> field = ''studentName'', message = NameTooLong, issueRow = index + 1 \<rparr>]
         else []) @
        (if blank (studentId cert)
         then [\<lparr> field = ''studentId'', message = IdRequired, issueRow = index + 1 \<rparr>]
         else []) @
        (if blank (degree cert)
         then [\<lparr> field = ''degree'', message = DegreeRequired, issueRow = index + 1 \<rparr>]
         else []) @
        (if blank (institution cert)
         then [\<lparr> field = ''institution'', message = InstitutionRequired, issueRow = index + 1 \<rparr>]
         else []) @
        (if \<not> truthy (issueDate cert)
         then [\<lparr> field = ''issueDate'', message = DateRequired, issueRow = index + 1 \<rparr>]
         else if \<not> validDate (strOf (issueDate cert))
         then [\<lparr> field = ''issueDate'', message = InvalidDate (strOf (issueDate cert)),
                 issueRow = index + 1 \<rparr>]
         else []);
        warns =
        (if truthy (email cert) \<and> trim (strOf (email cert)) \<noteq> [] \<and>
            \<not> emailRegexTest (strOf (email cert))
         then [\<lparr> field = ''email'', message = InvalidEmail (strOf (email cert)),
                 issueRow = index + 1 \<rparr>]
         else []) @
        (if truthy (studentName cert) \<and> fourDigits 0 (strOf (studentName cert))
         then [\<lparr> field = ''studentName'', message = NameHasNumbers, issueRow = index + 1 \<rparr>]
         else [])
      in \<lparr> valid = (errs = []), errors = errs, warnings = warns \<rparr>)"

text \<open>\<^verbatim>\<open>{ ...cert, _row: n }\<close> and \<^verbatim>\<open>{ ...cert, _row: n, _errors: errors }\<close>\<close>

definition withRow :: "raw_row \<Rightarrow> nat \<Rightarrow> certificate" where
  "withRow cert n =
     \<lparr> studentName = studentName cert, studentId = studentId cert, degree = degree cert,
       institution = institution cert, issueDate = issueDate cert, email = email cert,
       row = n, certId = None, documentHash = None, ipfsHash = None, ipfsPinned = None,
       ipfsGateway = None, ipfsError = None \<rparr>"

record invalid_record = raw_row +
  invalidRow :: nat
  invalidErrors :: "issue list"

definition withErrors :: "raw_row \<Rightarrow> nat \<Rightarrow> issue list \<Rightarrow> invalid_record" where
  "withErrors cert n es =
     \<lparr> studentName = studentName cert, studentId = studentId cert, degree = degree cert,
       institution = institution cert, issueDate = issueDate cert, email = email cert,
       invalidRow = n, invalidErrors = es \<rparr>"

text \<open>The local variables of \<^verbatim>\<open>validateBatch\<close>.\<close>

record batch_validation =
  allErrors :: "issue list"
  allWarnings :: "issue list"
  validRecords :: "certificate list"
  invalidRecords :: "invalid_record list"
  seenStudentIds :: "string \<rightharpoonup> nat"
  seenEmails :: "string \<rightharpoonup> nat"

text \<open>
  \<^verbatim>\<open>if (seen.has(key)) allWarnings.push({ field, message, row })\<close>: the warning to
  push, if any; the message names the key and the row \<^verbatim>\<open>seen.get(key)\<close>.
\<close>

definition pushIfSeen ::
  "(string \<rightharpoonup> nat) \<Rightarrow> string \<Rightarrow> string \<Rightarrow> (string \<Rightarrow> nat \<Rightarrow> message) \<Rightarrow> nat \<Rightarrow> issue list" where
  "pushIfSeen seen key f mk n =
     (case seen key of
        Some r \<Rightarrow> [\<lparr> field = f, message = mk key r, issueRow = n \<rparr>]
      | None \<Rightarrow> [])"

text \<open>The body of the loop for row \<open>i\<close>.\<close>

definition validateRow :: "(string \<Rightarrow> bool) \<Rightarrow> nat \<Rightarrow> raw_row \<Rightarrow> batch_validation \<Rightarrow> batch_validation" where
  "validateRow validDate i cert st =
     (let v = validateCertificate validDate cert i;
          st1 = (if truthy (studentId cert) then
                   st \<lparr> allWarnings :=
                          allWarnings st @
                            pushIfSeen (seenStudentIds st) (strOf (studentId cert))
                              ''studentId'' DuplicateStudentId (i + 1),
                        seenStudentIds := (seenStudentIds st)(strOf (studentId cert) \<mapsto> i + 1) \<rparr>
                 else st);
          st2 = (if truthy (email cert) then
                   st1 \<lparr> allWarnings :=
                           allWarnings st1 @
                             pushIfSeen (seenEmails st1) (strOf (email cert))
                               ''email'' DuplicateEmail (i + 1),
                         seenEmails := (seenEmails st1)(strOf (email cert) \<mapsto> i + 1) \<rparr>
                 else st1);
          st3 = st2 \<lparr> allErrors := allErrors st2 @ errors v,
                      allWarnings := allWarnings st2 @ warnings v \<rparr>
      in if valid v
         then st3 \<lparr> validRecords := validRecords st3 @ [withRow cert (i + 1)] \<rparr>
         else st3 \<lparr> invalidRecords := invalidRecords st3 @ [withErrors cert (i + 1) (errors v)] \<rparr>)"

fun validateLoop :: "(string \<Rightarrow> bool) \<Rightarrow> nat \<Rightarrow> raw_row list \<Rightarrow> batch_validation \<Rightarrow> batch_validation" where
  "validateLoop validDate i [] st = st"
| "validateLoop validDate i (c # cs) st =
     validateLoop validDate (Suc i) cs (validateRow validDate i c st)"

record batch_report =
  totalRows :: nat
  validCount :: nat
  invalidCount :: nat
  hasErrors :: bool
  reportErrors :: "issue list"
  reportWarnings :: "issue list"
  reportValid :: "certificate list"
  reportInvalid :: "invalid_record list"

definition validateBatch :: "(string \<Rightarrow> bool) \<Rightarrow> raw_row list \<Rightarrow> batch_report" where
  "validateBatch validDate certificates =
     (let st = validateLoop validDate 0 certificates
                 \<lparr> allErrors = [], allWarnings = [], validRecords = [], invalidRecords = [],
                   seenStudentIds = Map.empty, seenEmails = Map.empty \<rparr>
      in \<lparr> totalRows = length certificates,
           validCount = length (validRecords st),
           invalidCount = length (invalidRecords st),
           hasErrors = (allErrors st \<noteq> []),
           reportErrors = allErrors st,
           reportWarnings = allWarnings st,
           reportValid = validRecords st,
           reportInvalid = invalidRecords st \<rparr>)"

text \<open>
  The job that \<^verbatim>\<open>uploadCSV\<close> stores for a validated file: its records are the valid
  records of the report.
\<close>

definition uploadedJob :: "string \<Rightarrow> batch_report \<Rightarrow> job" where
  "uploadedJob jid validation =
     \<lparr> jobId = jid, status = Validated, records = reportValid validation,
       jobProgress = None, jobResults = None, jobSummary = None, jobError = None \<rparr>"

section \<open>Observations and sample inputs\<close>

text \<open>What a run of \<^verbatim>\<open>issueBatch\<close> leaves: the last value of the cursor, and how many
  submissions the network accepted.\<close>

definition finalCursor :: "string + batch_state \<Rightarrow> nat option" where
  "finalCursor r = (case r of Inl e \<Rightarrow> None | Inr st \<Rightarrow> Some (nonce st))"

definition acceptedCount :: "string + batch_state \<Rightarrow> nat option" where
  "acceptedCount r = (case r of Inl e \<Rightarrow> None | Inr st \<Rightarrow> Some (accepted st))"

text \<open>The explicit nonces of the submissions of a run, in order.\<close>

definition sentNonces :: "string + batch_state \<Rightarrow> nat list option" where
  "sentNonces r =
     (case r of Inl e \<Rightarrow> None | Inr st \<Rightarrow> Some (map (\<lambda>x. callNonce (fst x)) (calls st)))"

definition initialState :: "nat \<Rightarrow> batch_state" where
  "initialState n0 = \<lparr> results = [], succeeded = 0, failed = 0, nonce = n0, calls = [] \<rparr>"

text \<open>The stage statuses of one compiled row: document, chain, verification code.\<close>

definition rowStages :: "result_row \<Rightarrow> stage_status \<times> stage_status \<times> stage_status" where
  "rowStages r = (pdfStatus (pdf r), bcStatus (blockchain r), qrStatus (qr r))"

definition pipelineStages :: "string + job \<Rightarrow> (stage_status \<times> stage_status \<times> stage_status) list option" where
  "pipelineStages r =
     (case r of
        Inl e \<Rightarrow> None
      | Inr j \<Rightarrow> (case jobResults j of None \<Rightarrow> None | Some rs \<Rightarrow> Some (map rowStages rs)))"

definition sampleRow :: "string \<Rightarrow> string \<Rightarrow> raw_row" where
  "sampleRow name sid =
     \<lparr> studentName = Some name, studentId = Some sid, degree = Some ''BSc Computer Science'',
       institution = Some ''MIT'', issueDate = Some ''2026-06-15'', email = None \<rparr>"

definition alice :: certificate where
  "alice = withRow (sampleRow ''Alice Johnson'' ''STU-2026-001'') 1"

definition bob :: certificate where
  "bob = withRow (sampleRow ''Bob Smith'' ''STU-2026-002'') 2"

definition carol :: certificate where
  "carol = withRow (sampleRow ''Carol Williams'' ''STU-2026-003'') 3"

definition sampleCerts :: "certificate list" where
  "sampleCerts = [alice, bob, carol]"

definition sampleReceipt :: tx_receipt where
  "sampleReceipt = \<lparr> blockNumber = 120, gasUsed = 21000 \<rparr>"

text \<open>
  A network whose pending-nonce view is truthful: record 0 is confirmed, record 1 is
  rejected before acceptance, record 2 is accepted and reverts.
\<close>

definition steadyNet :: network where
  "steadyNet =
     \<lparr> getNonce = (\<lambda>k. if k = 0 then Inr 5 else if k \<le> 2 then Inr 6 else Inr 7),
       submitTx = (\<lambda>i call. if i = 1 then Inl ''gas estimation failed''
                              else Inr \<lparr> hash = ''0xaa'' \<rparr>),
       waitTx = (\<lambda>i tx. if i = 2 then Inl ''execution reverted'' else Inr sampleReceipt),
       dateSeconds = (\<lambda>d. Some 1781481600) \<rparr>"

text \<open>
  A network on which the signer's pending nonce moved from 5 to 7 outside the batch, and
  which rejects every submission before acceptance.
\<close>

definition driftNet :: network where
  "driftNet =
     \<lparr> getNonce = (\<lambda>k. if k = 0 then Inr 5 else Inr 7),
       submitTx = (\<lambda>i call. Inl ''gas estimation failed''),
       waitTx = (\<lambda>i tx. Inr sampleReceipt),
       dateSeconds = (\<lambda>d. Some 1781481600) \<rparr>"

text \<open>
  A network that accepts every submission, reverts it, and answers every nonce fetch
  with the cached value 5.
\<close>

definition staleNet :: network where
  "staleNet =
     \<lparr> getNonce = (\<lambda>k. Inr 5),
       submitTx = (\<lambda>i call. Inr \<lparr> hash = ''0xbb'' \<rparr>),
       waitTx = (\<lambda>i tx. Inl ''execution reverted''),
       dateSeconds = (\<lambda>d. Some 1781481600) \<rparr>"

text \<open>Whether a message is one of the two duplicate notices of \<^verbatim>\<open>validateBatch\<close>.\<close>

fun isDuplicateMessage :: "message \<Rightarrow> bool" where
  "isDuplicateMessage (DuplicateStudentId s r) = True"
| "isDuplicateMessage (DuplicateEmail s r) = True"
| "isDuplicateMessage m = False"

text \<open>A date parser for the samples: it accepts the texts of ten characters.\<close>

definition sampleValidDate :: "string \<Rightarrow> bool" where
  "sampleValidDate s = (length s = 10)"

text \<open>Two rows with one student identifier and one contact address.\<close>

definition siblingRows :: "raw_row list" where
  "siblingRows =
     [(sampleRow ''Alice Johnson'' ''STU-2026-001'') \<lparr> email := Some ''home@example.com'' \<rparr>,
      (sampleRow ''Bob Johnson'' ''STU-2026-001'') \<lparr> email := Some ''home@example.com'' \<rparr>]"

text \<open>Sample collaborators.\<close>

definition samplePdf :: pdf_file where
  "samplePdf = \<lparr> pdfFilePath = ''/output/certificates/c.pdf'', pdfFileName = ''c.pdf'',
                 pdfSize = 4, pdfBuffer = ''%PDF'' \<rparr>"

definition sampleQr :: qr_file where
  "sampleQr = \<lparr> qrFilePath = ''/output/qrcodes/c.png'', qrFileName = ''c.png'', qrSize = 9 \<rparr>"

definition sampleUpload :: ipfs_upload where
  "sampleUpload = \<lparr> uploadHash = ''QmSample'', uploadPinned = True,
                    uploadGateway = Some ''https://gateway.pinata.cloud/ipfs/QmSample'' \<rparr>"

text \<open>Random texts that differ from record to record, and one that repeats.\<close>

definition distinctRandom :: "nat \<Rightarrow> string" where
  "distinctRandom i = (if i = 0 then ''0.abc1'' else if i = 1 then ''0.q7z2'' else ''0.m4k8'')"

definition sameRandom :: "nat \<Rightarrow> string" where
  "sameRandom i = ''0.k3x9a''"

text \<open>
  Collaborators that render every document or none (\<open>pdfOk\<close>) and whose content store
  accepts every upload or none (\<open>ipfsOk\<close>); the on-chain count is 41 and the year 2026.
\<close>

definition sampleServices :: "bool \<Rightarrow> bool \<Rightarrow> network \<Rightarrow> (nat \<Rightarrow> string) \<Rightarrow> services" where
  "sampleServices pdfOk ipfsOk net rnd =
     \<lparr> idSource = (\<lambda>i. \<lparr> totalCertificates = Inr 41, fullYear = 2026, randomBase36 = rnd i \<rparr>),
       browserLaunch = None,
       browserClose = None,
       renderPdf = (\<lambda>t i c. if pdfOk then Inr samplePdf else Inl ''Navigation timeout''),
       uploadBuffer = (\<lambda>i b f c d. if ipfsOk then Inr sampleUpload
                                    else Inl ''Pinata upload failed (503)''),
       chain = net,
       saveQRToFile = (\<lambda>k c. Inr sampleQr),
       isEmailConfigured = False,
       sendCertificateEmail = (\<lambda>k j. Inr True) \<rparr>"

text \<open>A network that accepts and confirms every submission.\<close>

definition acceptingNet :: network where
  "acceptingNet =
     \<lparr> getNonce = (\<lambda>k. Inr 5),
       submitTx = (\<lambda>i call. Inr \<lparr> hash = ''0xcc'' \<rparr>),
       waitTx = (\<lambda>i tx. Inr sampleReceipt),
       dateSeconds = (\<lambda>d. Some 1781481600) \<rparr>"

text \<open>
  A network that confirms the first submission and rejects the later ones before
  acceptance, as the contract does for an identifier that already exists.
\<close>

definition firstOnlyNet :: network where
  "firstOnlyNet =
     \<lparr> getNonce = (\<lambda>k. Inr 6),
       submitTx = (\<lambda>i call. if i = 0 then Inr \<lparr> hash = ''0xdd'' \<rparr>
                              else Inl ''Certificate already exists''),
       waitTx = (\<lambda>i tx. Inr sampleReceipt),
       dateSeconds = (\<lambda>d. Some 1781481600) \<rparr>"

definition sampleJob :: "certificate list \<Rightarrow> job" where
  "sampleJob certs =
     \<lparr> jobId = ''job-1'', status = Processing, records = certs, jobProgress = None,
       jobResults = None, jobSummary = None, jobError = None \<rparr>"

text \<open>The transaction hashes and the content identifiers of the compiled rows.\<close>

definition pipelineTxHashes :: "string + job \<Rightarrow> string option list option" where
  "pipelineTxHashes r =
     (case r of
        Inl e \<Rightarrow> None
      | Inr j \<Rightarrow>
          (case jobResults j of
             None \<Rightarrow> None
           | Some rs \<Rightarrow> Some (map (\<lambda>x. bcTxHash (blockchain x)) rs)))"

definition pipelineContentIds :: "string + job \<Rightarrow> string option list option" where
  "pipelineContentIds r =
     (case r of
        Inl e \<Rightarrow> None
      | Inr j \<Rightarrow>
          (case jobResults j of
             None \<Rightarrow> None
           | Some rs \<Rightarrow> Some (map (\<lambda>x. ipfsOutHash (ipfs x)) rs)))"

definition pipelineDigests :: "string + job \<Rightarrow> string option list option" where
  "pipelineDigests r =
     (case r of
        Inl e \<Rightarrow> None
      | Inr j \<Rightarrow>
          (case jobResults j of
             None \<Rightarrow> None
           | Some rs \<Rightarrow> Some (map (\<lambda>x. ipfsOutDocumentHash (ipfs x)) rs)))"

definition pipelineRows :: "string + job \<Rightarrow> nat list option" where
  "pipelineRows r =
     (case r of
        Inl e \<Rightarrow> None
      | Inr j \<Rightarrow> (case jobResults j of None \<Rightarrow> None | Some rs \<Rightarrow> Some (map resRow rs)))"

definition pipelineIds :: "string + job \<Rightarrow> string option list option" where
  "pipelineIds r = (case r of Inl e \<Rightarrow> None | Inr j \<Rightarrow> Some (map certId (records j)))"

definition pipelineStatus :: "string + job \<Rightarrow> job_status option" where
  "pipelineStatus r = (case r of Inl e \<Rightarrow> None | Inr j \<Rightarrow> Some (status j))"

text \<open>A record that already carries an identifier, next to one that does not.\<close>

definition mixedCerts :: "certificate list" where
  "mixedCerts = [alice \<lparr> certId := Some ''CERT-2025-007-XYZ'' \<rparr>, bob]"

section \<open>Properties of the submission loop\<close>

lemma catchBlock_results:
  "results (catchBlock net i cert err st) = results st @ [ChainFailed i (certId cert) err]"
  by (simp add: catchBlock_def Let_def split: sum.splits)

lemma catchBlock_counts:
  "succeeded (catchBlock net i cert err st) = succeeded st"
  "failed (catchBlock net i cert err st) = Suc (failed st)"
  "calls (catchBlock net i cert err st) = calls st"
  by (simp_all add: catchBlock_def Let_def split: sum.splits)

lemma issueStep_results:
  "\<exists>r. results (issueStep net i cert st) = results st @ [r] \<and>
       resultIndex r = i \<and> resultCertId r = certId cert"
  by (simp add: issueStep_def Let_def catchBlock_results split: sum.splits)


lemma issueLoop_length:
  "length (results (issueLoop net i certs st)) = length (results st) + length certs"
proof (induction certs arbitrary: i st)
  case Nil
  show ?case by simp
next
  case (Cons c cs)
  obtain r where "results (issueStep net i c st) = results st @ [r]"
    using issueStep_results by blast
  then show ?case by (simp add: Cons.IH)
qed






lemma issueBatch_Inr:
  "getNonce net 0 = Inr n0 \<Longrightarrow> issueBatch net certs = Inr (issueLoop net 0 certs (initialState n0))"
  by (simp add: issueBatch_def initialState_def)



section \<open>The nonce cursor\<close>

lemma accepted_snoc:
  "accepted (st \<lparr> calls := calls st @ [x] \<rparr>) = accepted st + (if isAccepted x then 1 else 0)"
  by (simp add: accepted_def)

lemma issueStep_confirmed:
  assumes "submitTx net i (mkCall net c (nonce st)) = Inr tx" "waitTx net i tx = Inr rc"
  shows "nonce (issueStep net i c st) = nonce st + 1"
    and "accepted (issueStep net i c st) = accepted st + 1"
  using assms by (simp_all add: issueStep_def Let_def accepted_def)

lemma issueStep_reverted:
  assumes "submitTx net i (mkCall net c (nonce st)) = Inr tx" "waitTx net i tx = Inl e"
  shows "nonce (issueStep net i c st) =
           (case getNonce net (Suc i) of Inr m \<Rightarrow> m | Inl e' \<Rightarrow> nonce st + 1)"
    and "accepted (issueStep net i c st) = accepted st + 1"
  using assms
  by (simp_all add: issueStep_def catchBlock_def Let_def accepted_def split: sum.splits)

lemma issueStep_rejected:
  assumes "submitTx net i (mkCall net c (nonce st)) = Inl e"
  shows "nonce (issueStep net i c st) =
           (case getNonce net (Suc i) of Inr m \<Rightarrow> m | Inl e' \<Rightarrow> nonce st)"
    and "accepted (issueStep net i c st) = accepted st"
  using assms
  by (simp_all add: issueStep_def catchBlock_def Let_def accepted_def split: sum.splits)

lemma issueStep_last:
  "length (results (issueStep net i c st)) = Suc (length (results st))"
  "results (issueStep net i c st) ! length (results st) = last (results (issueStep net i c st))"
proof -
  obtain r where r: "results (issueStep net i c st) = results st @ [r]"
    using issueStep_results by blast
  then show "length (results (issueStep net i c st)) = Suc (length (results st))"
    by simp
  from r show "results (issueStep net i c st) ! length (results st)
                 = last (results (issueStep net i c st))"
    by simp
qed

lemma issueStep_kept_results:
  "k < length (results st) \<Longrightarrow> results (issueStep net i c st) ! k = results st ! k"
proof -
  assume k: "k < length (results st)"
  obtain r where "results (issueStep net i c st) = results st @ [r]"
    using issueStep_results by blast
  with k show ?thesis by (simp add: nth_append)
qed

lemma issueStep_confirmed_last:
  assumes "submitTx net i (mkCall net c (nonce st)) = Inr tx" "waitTx net i tx = Inr rc"
  shows "isSuccess (last (results (issueStep net i c st)))"
  using assms by (simp add: issueStep_def Let_def)

text \<open>
  One record keeps the cursor at the initial nonce plus the number of acceptances, if
  the fetch of its \<^verbatim>\<open>catch\<close> block, when that block runs and the fetch answers, returns
  that number.
\<close>

lemma issueStep_invariant:
  assumes inv: "nonce st = n0 + accepted st"
    and sync: "\<not> isSuccess (last (results (issueStep net i c st))) \<longrightarrow>
               (\<forall>m. getNonce net (Suc i) = Inr m \<longrightarrow> m = n0 + accepted (issueStep net i c st))"
  shows "nonce (issueStep net i c st) = n0 + accepted (issueStep net i c st)"
proof (cases "submitTx net i (mkCall net c (nonce st))")
  case (Inl e)
  then have "\<not> isSuccess (last (results (issueStep net i c st)))"
    by (simp add: issueStep_def Let_def catchBlock_results)
  with sync have s: "\<forall>m. getNonce net (Suc i) = Inr m \<longrightarrow> m = n0 + accepted (issueStep net i c st)"
    by simp
  from issueStep_rejected [OF Inl] inv s show ?thesis
    by (cases "getNonce net (Suc i)") simp_all
next
  case (Inr tx)
  show ?thesis
  proof (cases "waitTx net i tx")
    case (Inl e)
    with Inr have "\<not> isSuccess (last (results (issueStep net i c st)))"
      by (simp add: issueStep_def Let_def catchBlock_results)
    with sync have s: "\<forall>m. getNonce net (Suc i) = Inr m \<longrightarrow> m = n0 + accepted (issueStep net i c st)"
      by simp
    from issueStep_reverted [OF Inr Inl] inv s show ?thesis
      by (cases "getNonce net (Suc i)") simp_all
  next
    case rc: (Inr rc)
    from issueStep_confirmed [OF Inr rc] inv show ?thesis by simp
  qed
qed

lemma issueLoop_snoc:
  "issueLoop net i (xs @ [c]) st = issueStep net (i + length xs) c (issueLoop net i xs st)"
  by (induction xs arbitrary: i st) simp_all

lemma issueLoop_results_length:
  "length (results (issueLoop net 0 xs (initialState n0))) = length xs"
  using issueLoop_length [of net 0 xs "initialState n0"] by (simp add: initialState_def)

lemma issueLoop_truthful:
  assumes "\<forall>k<length certs.
             \<not> isSuccess (results (issueLoop net 0 certs (initialState n0)) ! k) \<longrightarrow>
             (\<forall>m. getNonce net (Suc k) = Inr m \<longrightarrow>
                m = n0 + accepted (issueLoop net 0 (take (Suc k) certs) (initialState n0)))"
  shows "nonce (issueLoop net 0 certs (initialState n0))
           = n0 + accepted (issueLoop net 0 certs (initialState n0))"
  using assms
proof (induction certs rule: rev_induct)
  case Nil
  show ?case by (simp add: initialState_def accepted_def)
next
  case (snoc c xs)
  let ?st = "issueLoop net 0 xs (initialState n0)"
  have run: "issueLoop net 0 (xs @ [c]) (initialState n0) = issueStep net (length xs) c ?st"
    by (simp add: issueLoop_snoc)
  have len: "length (results ?st) = length xs"
    by (rule issueLoop_results_length)
  have "\<forall>k<length xs. \<not> isSuccess (results ?st ! k) \<longrightarrow>
          (\<forall>m. getNonce net (Suc k) = Inr m \<longrightarrow>
             m = n0 + accepted (issueLoop net 0 (take (Suc k) xs) (initialState n0)))"
  proof (intro allI impI)
    fix k m
    assume k: "k < length xs" and f: "\<not> isSuccess (results ?st ! k)"
      and m: "getNonce net (Suc k) = Inr m"
    from k len have "results (issueStep net (length xs) c ?st) ! k = results ?st ! k"
      by (simp add: issueStep_kept_results)
    with f run have f': "\<not> isSuccess (results (issueLoop net 0 (xs @ [c]) (initialState n0)) ! k)"
      by simp
    from k have t: "take (Suc k) (xs @ [c]) = take (Suc k) xs" by simp
    from k have k': "k < length (xs @ [c])" by simp
    from snoc.prems [rule_format, OF k' f' m] t
    show "m = n0 + accepted (issueLoop net 0 (take (Suc k) xs) (initialState n0))"
      by simp
  qed
  then have inv: "nonce ?st = n0 + accepted ?st"
    by (rule snoc.IH)
  have last: "\<not> isSuccess (last (results (issueStep net (length xs) c ?st))) \<longrightarrow>
              (\<forall>m. getNonce net (Suc (length xs)) = Inr m \<longrightarrow>
                 m = n0 + accepted (issueStep net (length xs) c ?st))"
  proof (intro allI impI)
    fix m
    assume f: "\<not> isSuccess (last (results (issueStep net (length xs) c ?st)))"
      and m: "getNonce net (Suc (length xs)) = Inr m"
    from issueStep_last(2) [of net "length xs" c ?st] len
    have "results (issueStep net (length xs) c ?st) ! length xs
            = last (results (issueStep net (length xs) c ?st))"
      by simp
    with f run
    have f': "\<not> isSuccess (results (issueLoop net 0 (xs @ [c]) (initialState n0)) ! length xs)"
      by simp
    have k': "length xs < length (xs @ [c])" by simp
    from snoc.prems [rule_format, OF k' f' m] run
    show "m = n0 + accepted (issueStep net (length xs) c ?st)"
      by simp
  qed
  from issueStep_invariant [OF inv last] run show ?case
    by simp
qed

text \<open>
  C1 (amended): the cursor is fetched from the network once, before the loop. Within the
  loop, a submission that is accepted and confirmed moves the cursor by exactly one, and
  so does one that is accepted and then fails when no fetch answers afterwards. An error
  raised before acceptance does not increment the cursor: the cursor is replaced by the
  network's pending-nonce view, and stays as it is when that fetch fails. After a run,
  the cursor has advanced by exactly the number of accepted submissions provided the
  network's pending-nonce view, whenever it answers after a failed record, is the
  initial nonce plus the number of submissions accepted so far.
\<close>

theorem nonce_cursor_accounting:
  "(\<forall>tx rc. submitTx net i (mkCall net c (nonce st)) = Inr tx \<longrightarrow> waitTx net i tx = Inr rc \<longrightarrow>
      nonce (issueStep net i c st) = nonce st + 1) \<and>
   (\<forall>tx e e'. submitTx net i (mkCall net c (nonce st)) = Inr tx \<longrightarrow> waitTx net i tx = Inl e \<longrightarrow>
      getNonce net (Suc i) = Inl e' \<longrightarrow> nonce (issueStep net i c st) = nonce st + 1) \<and>
   (\<forall>e m. submitTx net i (mkCall net c (nonce st)) = Inl e \<longrightarrow> getNonce net (Suc i) = Inr m \<longrightarrow>
      nonce (issueStep net i c st) = m) \<and>
   (\<forall>e e'. submitTx net i (mkCall net c (nonce st)) = Inl e \<longrightarrow> getNonce net (Suc i) = Inl e' \<longrightarrow>
      nonce (issueStep net i c st) = nonce st) \<and>
   (getNonce net 0 = Inr n0 \<longrightarrow>
    (\<forall>k<length certs.
        \<not> isSuccess (results (issueLoop net 0 certs (initialState n0)) ! k) \<longrightarrow>
        (\<forall>m. getNonce net (Suc k) = Inr m \<longrightarrow>
           m = n0 + accepted (issueLoop net 0 (take (Suc k) certs) (initialState n0)))) \<longrightarrow>
    (\<exists>fin. issueBatch net certs = Inr fin \<and> nonce fin = n0 + accepted fin))"
proof (intro conjI)
  show "\<forall>tx rc. submitTx net i (mkCall net c (nonce st)) = Inr tx \<longrightarrow> waitTx net i tx = Inr rc \<longrightarrow>
      nonce (issueStep net i c st) = nonce st + 1"
    by (simp add: issueStep_confirmed)
  show "\<forall>tx e e'. submitTx net i (mkCall net c (nonce st)) = Inr tx \<longrightarrow> waitTx net i tx = Inl e \<longrightarrow>
      getNonce net (Suc i) = Inl e' \<longrightarrow> nonce (issueStep net i c st) = nonce st + 1"
    by (simp add: issueStep_reverted)
  show "\<forall>e m. submitTx net i (mkCall net c (nonce st)) = Inl e \<longrightarrow> getNonce net (Suc i) = Inr m \<longrightarrow>
      nonce (issueStep net i c st) = m"
    by (simp add: issueStep_rejected)
  show "\<forall>e e'. submitTx net i (mkCall net c (nonce st)) = Inl e \<longrightarrow> getNonce net (Suc i) = Inl e' \<longrightarrow>
      nonce (issueStep net i c st) = nonce st"
    by (simp add: issueStep_rejected)
  show "getNonce net 0 = Inr n0 \<longrightarrow>
    (\<forall>k<length certs.
        \<not> isSuccess (results (issueLoop net 0 certs (initialState n0)) ! k) \<longrightarrow>
        (\<forall>m. getNonce net (Suc k) = Inr m \<longrightarrow>
           m = n0 + accepted (issueLoop net 0 (take (Suc k) certs) (initialState n0)))) \<longrightarrow>
    (\<exists>fin. issueBatch net certs = Inr fin \<and> nonce fin = n0 + accepted fin)"
  proof (intro impI)
    assume n: "getNonce net 0 = Inr n0"
      and t: "\<forall>k<length certs.
        \<not> isSuccess (results (issueLoop net 0 certs (initialState n0)) ! k) \<longrightarrow>
        (\<forall>m. getNonce net (Suc k) = Inr m \<longrightarrow>
           m = n0 + accepted (issueLoop net 0 (take (Suc k) certs) (initialState n0)))"
    from issueBatch_Inr [OF n] issueLoop_truthful [OF t]
    show "\<exists>fin. issueBatch net certs = Inr fin \<and> nonce fin = n0 + accepted fin"
      by blast
  qed
qed

lemmas sample_chain =
  sampleCerts_def initialState_def issueStep_def catchBlock_def accepted_def Let_def

lemma steadyNet_truthful:
  "\<forall>k<length sampleCerts.
     \<not> isSuccess (results (issueLoop steadyNet 0 sampleCerts (initialState 5)) ! k) \<longrightarrow>
     (\<forall>m. getNonce steadyNet (Suc k) = Inr m \<longrightarrow>
        m = 5 + accepted (issueLoop steadyNet 0 (take (Suc k) sampleCerts) (initialState 5)))"
  by (simp add: sample_chain steadyNet_def less_Suc_eq)

lemma acceptingNet_no_failure:
  "\<forall>k<length sampleCerts.
     \<not> isSuccess (results (issueLoop acceptingNet 0 sampleCerts (initialState 5)) ! k) \<longrightarrow>
     (\<forall>m. getNonce acceptingNet (Suc k) = Inr m \<longrightarrow>
        m = 5 + accepted (issueLoop acceptingNet 0 (take (Suc k) sampleCerts) (initialState 5)))"
  by (simp add: sample_chain acceptingNet_def less_Suc_eq)

lemma sample_chain_runs:
  "accepted (issueLoop steadyNet 0 sampleCerts (initialState 5)) = 2"
  "accepted (issueLoop acceptingNet 0 sampleCerts (initialState 5)) = 3"
  by (simp_all add: sample_chain steadyNet_def acceptingNet_def)

theorem nonce_cursor_accounting_witness:
  "getNonce steadyNet 0 = Inr 5 \<and>
   acceptedCount (issueBatch steadyNet sampleCerts) = Some 2 \<and>
   finalCursor (issueBatch steadyNet sampleCerts) = Some 7 \<and>
   getNonce acceptingNet 0 = Inr 5 \<and>
   acceptedCount (issueBatch acceptingNet sampleCerts) = Some 3 \<and>
   finalCursor (issueBatch acceptingNet sampleCerts) = Some 8"
proof -
  have n: "getNonce steadyNet 0 = Inr 5"
    by (simp add: steadyNet_def)
  have n': "getNonce acceptingNet 0 = Inr 5"
    by (simp add: acceptingNet_def)
  from nonce_cursor_accounting [where net = steadyNet and ?n0.0 = 5 and certs = sampleCerts]
    n steadyNet_truthful
  obtain fin where fin: "issueBatch steadyNet sampleCerts = Inr fin"
    and adv: "nonce fin = 5 + accepted fin"
    by blast
  from nonce_cursor_accounting [where net = acceptingNet and ?n0.0 = 5 and certs = sampleCerts]
    n' acceptingNet_no_failure
  obtain fin' where fin': "issueBatch acceptingNet sampleCerts = Inr fin'"
    and adv': "nonce fin' = 5 + accepted fin'"
    by blast
  from fin issueBatch_Inr [OF n, of sampleCerts]
  have "fin = issueLoop steadyNet 0 sampleCerts (initialState 5)" by simp
  with sample_chain_runs(1) adv have a: "accepted fin = 2" "nonce fin = 7" by simp_all
  from fin' issueBatch_Inr [OF n', of sampleCerts]
  have "fin' = issueLoop acceptingNet 0 sampleCerts (initialState 5)" by simp
  with sample_chain_runs(2) adv' have b: "accepted fin' = 3" "nonce fin' = 8" by simp_all
  from n n' fin fin' a b show ?thesis
    by (simp add: finalCursor_def acceptedCount_def)
qed

text \<open>
  C1 as stated fails: on \<open>driftNet\<close> the cursor starts at 5, no submission is accepted,
  and the run ends with the cursor at 7, the network's pending nonce.
\<close>

theorem nonce_cursor_counterexample:
  "getNonce driftNet 0 = Inr 5 \<and>
   acceptedCount (issueBatch driftNet sampleCerts) = Some 0 \<and>
   finalCursor (issueBatch driftNet sampleCerts) = Some 7"
  by (simp add: issueBatch_def driftNet_def sampleCerts_def issueStep_def catchBlock_def
        accepted_def finalCursor_def acceptedCount_def Let_def)

text \<open>
  C2: records that the network accepted and that then reverted. On \<open>staleNet\<close> the cursor
  starts at 5 and each acceptance moves it to 6; the \<^verbatim>\<open>catch\<close> block then fetches the
  nonce again and sets the cursor back to 5. All three submissions of the batch are sent
  with the nonce 5 and are accepted, and the run ends with the cursor at 5.
\<close>

theorem nonce_resync_after_revert:
  "getNonce staleNet 0 = Inr 5 \<and>
   acceptedCount (issueBatch staleNet sampleCerts) = Some 3 \<and>
   sentNonces (issueBatch staleNet sampleCerts) = Some [5, 5, 5] \<and>
   finalCursor (issueBatch staleNet sampleCerts) = Some 5"
  by (simp add: issueBatch_def staleNet_def sampleCerts_def issueStep_def catchBlock_def
        accepted_def finalCursor_def acceptedCount_def sentNonces_def mkCall_def Let_def)

section \<open>The validator\<close>

lemma valid_iff_no_errors:
  "valid (validateCertificate vd c i) = (errors (validateCertificate vd c i) = [])"
  by (simp add: validateCertificate_def Let_def)

lemma validateCertificate_no_duplicate_error:
  "e \<in> set (errors (validateCertificate vd c i)) \<Longrightarrow> \<not> isDuplicateMessage (message e)"
  by (auto simp: validateCertificate_def Let_def split: if_splits)

lemma validateRow_errors:
  "allErrors (validateRow vd i c st) = allErrors st @ errors (validateCertificate vd c i)"
  by (simp add: validateRow_def Let_def)

lemma validateRow_valid:
  "validRecords (validateRow vd i c st) =
     validRecords st @
       (if errors (validateCertificate vd c i) = [] then [withRow c (i + 1)] else [])"
  by (simp add: validateRow_def Let_def valid_iff_no_errors)

lemma pushIfSeen_Some:
  "seen key = Some r \<Longrightarrow>
   pushIfSeen seen key f mk n = [\<lparr> field = f, message = mk key r, issueRow = n \<rparr>]"
  by (simp add: pushIfSeen_def)

lemma validateRow_seen_ids:
  "seenStudentIds (validateRow vd i c st) =
     (if truthy (studentId c) then (seenStudentIds st)(strOf (studentId c) \<mapsto> i + 1)
      else seenStudentIds st)"
  by (simp add: validateRow_def Let_def)

lemma validateRow_seen_emails:
  "seenEmails (validateRow vd i c st) =
     (if truthy (email c) then (seenEmails st)(strOf (email c) \<mapsto> i + 1)
      else seenEmails st)"
  by (simp add: validateRow_def Let_def)

lemma validateRow_warnings:
  "allWarnings (validateRow vd i c st) =
     allWarnings st @
       (if truthy (studentId c) then
          pushIfSeen (seenStudentIds st) (strOf (studentId c)) ''studentId''
            DuplicateStudentId (i + 1)
        else []) @
       (if truthy (email c) then
          pushIfSeen (seenEmails st) (strOf (email c)) ''email'' DuplicateEmail (i + 1)
        else []) @
       warnings (validateCertificate vd c i)"
  by (simp add: validateRow_def Let_def)

lemma validateLoop_errors:
  "allErrors (validateLoop vd i cs st) =
     allErrors st @ concat (map (\<lambda>(k, c). errors (validateCertificate vd c k)) (enumerate i cs))"
  by (induction cs arbitrary: i st) (simp_all add: validateRow_errors)

lemma validateLoop_valid:
  "validRecords (validateLoop vd i cs st) =
     validRecords st @
       map (\<lambda>(k, c). withRow c (k + 1))
         (filter (\<lambda>(k, c). errors (validateCertificate vd c k) = []) (enumerate i cs))"
  by (induction cs arbitrary: i st) (simp_all add: validateRow_valid)

lemma validateLoop_warnings_mono:
  "set (allWarnings st) \<subseteq> set (allWarnings (validateLoop vd i cs st))"
proof (induction cs arbitrary: i st)
  case Nil
  show ?case by simp
next
  case (Cons c cs)
  have "set (allWarnings st) \<subseteq> set (allWarnings (validateRow vd i c st))"
    by (auto simp: validateRow_warnings)
  also have "\<dots> \<subseteq> set (allWarnings (validateLoop vd (Suc i) cs (validateRow vd i c st)))"
    by (rule Cons.IH)
  finally show ?case by simp
qed

lemma validateLoop_duplicate_id:
  assumes "j < length cs" "truthy (studentId (cs ! j))"
    and "strOf (studentId (cs ! j)) \<in> dom (seenStudentIds st) \<or>
         (\<exists>k<j. studentId (cs ! k) = studentId (cs ! j))"
  shows "\<exists>r. \<lparr> field = ''studentId'',
               message = DuplicateStudentId (strOf (studentId (cs ! j))) r,
               issueRow = i + j + 1 \<rparr> \<in> set (allWarnings (validateLoop vd i cs st))"
  using assms
proof (induction cs arbitrary: i j st)
  case Nil
  then show ?case by simp
next
  case (Cons c cs)
  let ?st = "validateRow vd i c st"
  show ?case
  proof (cases j)
    case 0
    with Cons.prems obtain r where r: "seenStudentIds st (strOf (studentId c)) = Some r"
      by auto
    from 0 Cons.prems r
    have "\<lparr> field = ''studentId'', message = DuplicateStudentId (strOf (studentId c)) r,
             issueRow = i + 1 \<rparr> \<in> set (allWarnings ?st)"
      by (simp add: validateRow_warnings pushIfSeen_Some)
    with validateLoop_warnings_mono [of ?st vd "Suc i" cs] 0 show ?thesis
      by auto
  next
    case (Suc j')
    with Cons.prems have j': "j' < length cs" and t: "truthy (studentId (cs ! j'))"
      by simp_all
    have seen: "strOf (studentId (cs ! j')) \<in> dom (seenStudentIds ?st) \<or>
                (\<exists>k<j'. studentId (cs ! k) = studentId (cs ! j'))"
    proof -
      from Cons.prems(3) Suc
      consider "strOf (studentId (cs ! j')) \<in> dom (seenStudentIds st)"
        | k where "k < Suc j'" "studentId ((c # cs) ! k) = studentId (cs ! j')"
        by auto
      then show ?thesis
      proof cases
        case 1
        then show ?thesis by (auto simp: validateRow_seen_ids)
      next
        case 2
        show ?thesis
        proof (cases k)
          case 0
          with 2 t show ?thesis by (simp add: validateRow_seen_ids)
        next
          case (Suc k')
          with 2 show ?thesis by auto
        qed
      qed
    qed
    from Cons.IH [OF j' t seen, of "Suc i"] Suc show ?thesis by simp
  qed
qed

lemma validateLoop_duplicate_email:
  assumes "j < length cs" "truthy (email (cs ! j))"
    and "strOf (email (cs ! j)) \<in> dom (seenEmails st) \<or>
         (\<exists>k<j. email (cs ! k) = email (cs ! j))"
  shows "\<exists>r. \<lparr> field = ''email'',
               message = DuplicateEmail (strOf (email (cs ! j))) r,
               issueRow = i + j + 1 \<rparr> \<in> set (allWarnings (validateLoop vd i cs st))"
  using assms
proof (induction cs arbitrary: i j st)
  case Nil
  then show ?case by simp
next
  case (Cons c cs)
  let ?st = "validateRow vd i c st"
  show ?case
  proof (cases j)
    case 0
    with Cons.prems obtain r where r: "seenEmails st (strOf (email c)) = Some r"
      by auto
    from 0 Cons.prems r
    have "\<lparr> field = ''email'', message = DuplicateEmail (strOf (email c)) r,
             issueRow = i + 1 \<rparr> \<in> set (allWarnings ?st)"
      by (simp add: validateRow_warnings pushIfSeen_Some)
    with validateLoop_warnings_mono [of ?st vd "Suc i" cs] 0 show ?thesis
      by auto
  next
    case (Suc j')
    with Cons.prems have j': "j' < length cs" and t: "truthy (email (cs ! j'))"
      by simp_all
    have seen: "strOf (email (cs ! j')) \<in> dom (seenEmails ?st) \<or>
                (\<exists>k<j'. email (cs ! k) = email (cs ! j'))"
    proof -
      from Cons.prems(3) Suc
      consider "strOf (email (cs ! j')) \<in> dom (seenEmails st)"
        | k where "k < Suc j'" "email ((c # cs) ! k) = email (cs ! j')"
        by auto
      then show ?thesis
      proof cases
        case 1
        then show ?thesis by (auto simp: validateRow_seen_emails)
      next
        case 2
        show ?thesis
        proof (cases k)
          case 0
          with 2 t show ?thesis by (simp add: validateRow_seen_emails)
        next
          case (Suc k')
          with 2 show ?thesis by auto
        qed
      qed
    qed
    from Cons.IH [OF j' t seen, of "Suc i"] Suc show ?thesis by simp
  qed
qed

lemma validateBatch_errors:
  "reportErrors (validateBatch vd rows) =
     concat (map (\<lambda>(k, c). errors (validateCertificate vd c k)) (enumerate 0 rows))"
  by (simp add: validateBatch_def Let_def validateLoop_errors)

lemma validateBatch_valid:
  "reportValid (validateBatch vd rows) =
     map (\<lambda>(k, c). withRow c (k + 1))
       (filter (\<lambda>(k, c). errors (validateCertificate vd c k) = []) (enumerate 0 rows))"
  by (simp add: validateBatch_def Let_def validateLoop_valid)

lemma validateBatch_warnings:
  "reportWarnings (validateBatch vd rows) =
     allWarnings (validateLoop vd 0 rows
       \<lparr> allErrors = [], allWarnings = [], validRecords = [], invalidRecords = [],
         seenStudentIds = Map.empty, seenEmails = Map.empty \<rparr>)"
  by (simp add: validateBatch_def Let_def)

lemma validateBatch_rows:
  assumes "c \<in> set (reportValid (validateBatch vd rows))"
  shows "1 \<le> row c \<and> row c \<le> length rows \<and> c = withRow (rows ! (row c - 1)) (row c)"
proof -
  from assms obtain k r where kr: "(k, r) \<in> set (enumerate 0 rows)" and c: "c = withRow r (k + 1)"
    by (auto simp: validateBatch_valid)
  from kr have "k < length rows" "r = rows ! k"
    by (simp_all add: in_set_enumerate_eq)
  with c show ?thesis by (simp add: withRow_def)
qed

text \<open>
  C10: the errors of a batch report are exactly the errors of the single rows, in order,
  so no duplicate notice is ever an error; a student identifier or a contact address
  that an earlier row already carried is recorded as a warning for the later row; and
  every row without errors is placed among the valid records with its 1-based row
  number, whatever its warnings are.
\<close>

theorem duplicates_are_warnings:
  "reportErrors (validateBatch vd rows) =
     concat (map (\<lambda>(k, c). errors (validateCertificate vd c k)) (enumerate 0 rows)) \<and>
   (\<forall>e\<in>set (reportErrors (validateBatch vd rows)). \<not> isDuplicateMessage (message e)) \<and>
   (\<forall>j<length rows. \<forall>k<j. truthy (studentId (rows ! j)) \<longrightarrow>
      studentId (rows ! k) = studentId (rows ! j) \<longrightarrow>
      (\<exists>r. \<lparr> field = ''studentId'',
             message = DuplicateStudentId (strOf (studentId (rows ! j))) r,
             issueRow = j + 1 \<rparr> \<in> set (reportWarnings (validateBatch vd rows)))) \<and>
   (\<forall>j<length rows. \<forall>k<j. truthy (email (rows ! j)) \<longrightarrow>
      email (rows ! k) = email (rows ! j) \<longrightarrow>
      (\<exists>r. \<lparr> field = ''email'',
             message = DuplicateEmail (strOf (email (rows ! j))) r,
             issueRow = j + 1 \<rparr> \<in> set (reportWarnings (validateBatch vd rows)))) \<and>
   (\<forall>k<length rows. errors (validateCertificate vd (rows ! k) k) = [] \<longrightarrow>
      withRow (rows ! k) (k + 1) \<in> set (reportValid (validateBatch vd rows)))"
proof (intro conjI ballI allI impI)
  show "reportErrors (validateBatch vd rows) =
          concat (map (\<lambda>(k, c). errors (validateCertificate vd c k)) (enumerate 0 rows))"
    by (rule validateBatch_errors)
next
  fix e
  assume "e \<in> set (reportErrors (validateBatch vd rows))"
  then obtain k and c :: raw_row where "e \<in> set (errors (validateCertificate vd c k))"
    by (auto simp: validateBatch_errors)
  then show "\<not> isDuplicateMessage (message e)"
    by (rule validateCertificate_no_duplicate_error)
next
  fix j k
  assume "j < length rows" "k < j" "truthy (studentId (rows ! j))"
    and "studentId (rows ! k) = studentId (rows ! j)"
  then show "\<exists>r. \<lparr> field = ''studentId'',
                   message = DuplicateStudentId (strOf (studentId (rows ! j))) r,
                   issueRow = j + 1 \<rparr> \<in> set (reportWarnings (validateBatch vd rows))"
    using validateLoop_duplicate_id [of j rows _ 0 vd]
    by (simp add: validateBatch_warnings) blast
next
  fix j k
  assume "j < length rows" "k < j" "truthy (email (rows ! j))"
    and "email (rows ! k) = email (rows ! j)"
  then show "\<exists>r. \<lparr> field = ''email'',
                   message = DuplicateEmail (strOf (email (rows ! j))) r,
                   issueRow = j + 1 \<rparr> \<in> set (reportWarnings (validateBatch vd rows))"
    using validateLoop_duplicate_email [of j rows _ 0 vd]
    by (simp add: validateBatch_warnings) blast
next
  fix k
  assume k: "k < length rows" and ok: "errors (validateCertificate vd (rows ! k) k) = []"
  from k have "(k, rows ! k) \<in> set (enumerate 0 rows)"
    by (simp add: in_set_enumerate_eq)
  with ok have "(k, rows ! k) \<in>
      set (filter (\<lambda>(k, c). errors (validateCertificate vd c k) = []) (enumerate 0 rows))"
    by simp
  then have "(\<lambda>(k, c). withRow c (k + 1)) (k, rows ! k) \<in> set (reportValid (validateBatch vd rows))"
    unfolding validateBatch_valid set_map by (rule imageI)
  then show "withRow (rows ! k) (k + 1) \<in> set (reportValid (validateBatch vd rows))"
    by simp
qed

lemma siblingRows_report:
  "reportErrors (validateBatch sampleValidDate siblingRows) = []"
  "validCount (validateBatch sampleValidDate siblingRows) = 2"
  by (simp_all add: validateBatch_def Let_def siblingRows_def sampleRow_def validateRow_def
        validateCertificate_def blank_def trim_def isSpace_def strOf_def emailRegexTest_def
        plainChar_def isDigit_def sampleValidDate_def pushIfSeen_def withRow_def)

theorem duplicates_are_warnings_witness:
  "reportErrors (validateBatch sampleValidDate siblingRows) = [] \<and>
   validCount (validateBatch sampleValidDate siblingRows) = 2 \<and>
   (\<exists>r. \<lparr> field = ''studentId'', message = DuplicateStudentId ''STU-2026-001'' r,
          issueRow = 2 \<rparr> \<in> set (reportWarnings (validateBatch sampleValidDate siblingRows))) \<and>
   (\<exists>r. \<lparr> field = ''email'', message = DuplicateEmail ''home@example.com'' r,
          issueRow = 2 \<rparr> \<in> set (reportWarnings (validateBatch sampleValidDate siblingRows)))"
proof -
  note T = duplicates_are_warnings [of sampleValidDate siblingRows]
  have len: "1 < length siblingRows"
    by (simp add: siblingRows_def)
  have ids: "truthy (studentId (siblingRows ! 1))"
      "studentId (siblingRows ! 0) = studentId (siblingRows ! 1)"
      "strOf (studentId (siblingRows ! 1)) = ''STU-2026-001''"
    by (simp_all add: siblingRows_def sampleRow_def strOf_def)
  have mails: "truthy (email (siblingRows ! 1))"
      "email (siblingRows ! 0) = email (siblingRows ! 1)"
      "strOf (email (siblingRows ! 1)) = ''home@example.com''"
    by (simp_all add: siblingRows_def sampleRow_def strOf_def)
  from T [THEN conjunct2, THEN conjunct2, THEN conjunct1, rule_format, of 1 0] len ids
  have a: "\<exists>r. \<lparr> field = ''studentId'', message = DuplicateStudentId ''STU-2026-001'' r,
                 issueRow = 2 \<rparr> \<in> set (reportWarnings (validateBatch sampleValidDate siblingRows))"
    by (simp add: numeral_2_eq_2)
  from T [THEN conjunct2, THEN conjunct2, THEN conjunct2, THEN conjunct1, rule_format, of 1 0]
    len mails
  have b: "\<exists>r. \<lparr> field = ''email'', message = DuplicateEmail ''home@example.com'' r,
                 issueRow = 2 \<rparr> \<in> set (reportWarnings (validateBatch sampleValidDate siblingRows))"
    by (simp add: numeral_2_eq_2)
  from a b siblingRows_report show ?thesis by simp
qed

section \<open>The phases of the pipeline\<close>

lemma generateCertificateId_nonempty:
  "generateCertificateId src = Inr cid \<Longrightarrow> cid \<noteq> []"
  by (auto simp: generateCertificateId_def split: sum.splits)

lemma generateIds_kept:
  "list_all2 (\<lambda>c c'. c' = c \<lparr> certId := certId c' \<rparr> \<and> (truthy (certId c) \<longrightarrow> c' = c))
     cs (snd (generateIds env i cs))"
proof (induction cs arbitrary: i)
  case Nil
  show ?case by simp
next
  case (Cons c cs)
  have same: "list_all2 (\<lambda>c c'. c' = c \<lparr> certId := certId c' \<rparr> \<and> (truthy (certId c) \<longrightarrow> c' = c)) cs cs"
    by (simp add: list_all2_conv_all_nth)
  show ?case
    using Cons.IH [of "Suc i"] same
    by (cases "generateIds env (Suc i) cs") (simp split: sum.splits)
qed

lemma generateIds_relation:
  "generateIds env i cs = (None, cs') \<Longrightarrow>
   list_all2 (\<lambda>c c'. c' = c \<lparr> certId := certId c' \<rparr> \<and> (truthy (certId c) \<longrightarrow> c' = c) \<and>
                      truthy (certId c')) cs cs'"
proof (induction cs arbitrary: i cs')
  case Nil
  then show ?case by simp
next
  case (Cons c cs)
  show ?case
  proof (cases "truthy (certId c)")
    case True
    with Cons.prems obtain r where r: "generateIds env (Suc i) cs = (None, r)" and e: "cs' = c # r"
      by (auto split: prod.splits)
    from Cons.IH [OF r] e True show ?thesis by simp
  next
    case False
    with Cons.prems obtain cid r where g: "generateCertificateId (idSource env i) = Inr cid"
      and r: "generateIds env (Suc i) cs = (None, r)" and e: "cs' = c \<lparr> certId := Some cid \<rparr> # r"
      by (auto split: sum.splits prod.splits)
    from generateCertificateId_nonempty [OF g] Cons.IH [OF r] e False show ?thesis by simp
  qed
qed

lemma generateIds_unchanged:
  "\<forall>c\<in>set cs. truthy (certId c) \<Longrightarrow> generateIds env i cs = (None, cs)"
  by (induction cs arbitrary: i) simp_all

lemma generateIds_length:
  "generateIds env i cs = (None, cs') \<Longrightarrow> length cs' = length cs"
  by (drule generateIds_relation) (simp add: list_all2_lengthD)

lemma generateIds_row:
  assumes "generateIds env i cs = (None, cs')" "k < length cs"
  shows "row (cs' ! k) = row (cs ! k)"
proof -
  from generateIds_relation [OF assms(1)] assms(2)
  have "cs' ! k = (cs ! k) \<lparr> certId := certId (cs' ! k) \<rparr>"
    by (simp add: list_all2_conv_all_nth)
  then have "row (cs' ! k) = row ((cs ! k) \<lparr> certId := certId (cs' ! k) \<rparr>)"
    by simp
  then show ?thesis by simp
qed

lemma renderLoop_length:
  "length (renderLoop env t i cs) = length cs"
  by (induction cs arbitrary: i) simp_all

lemma renderLoop_nth:
  "k < length cs \<Longrightarrow>
   renderLoop env t i cs ! k =
     (case renderPdf env t (i + k) (cs ! k) of
        Inr f \<Rightarrow> PdfSuccess (certId (cs ! k)) f
      | Inl e \<Rightarrow> PdfFailed (certId (cs ! k)) e)"
proof (induction cs arbitrary: i k)
  case Nil
  then show ?case by simp
next
  case (Cons c cs)
  then show ?case by (cases k) (simp_all split: sum.splits)
qed

lemma storeLoop_result:
  "i + length cs \<le> length pdfs \<Longrightarrow>
   storeLoop env pdfs i cs = Inr (map (\<lambda>(k, c). storeStep env k c (pdfs ! k)) (enumerate i cs))"
  by (induction cs arbitrary: i) (simp_all add: nthOpt_def)

lemma storeLoop_nth:
  assumes "storeLoop env pdfs 0 cs = Inr cs'" "length pdfs = length cs" "k < length cs"
  shows "length cs' = length cs" and "cs' ! k = storeStep env k (cs ! k) (pdfs ! k)"
proof -
  from assms(2) have "0 + length cs \<le> length pdfs" by simp
  from storeLoop_result [OF this, of env] assms(1)
  have e: "cs' = map (\<lambda>(k, c). storeStep env k c (pdfs ! k)) (enumerate 0 cs)"
    by simp
  then show "length cs' = length cs" by simp
  from e assms(3) show "cs' ! k = storeStep env k (cs ! k) (pdfs ! k)"
    by (simp add: nth_enumerate_eq)
qed

lemma storeStep_kept:
  "row (storeStep env i c p) = row c"
  "certId (storeStep env i c p) = certId c"
  by (simp_all add: storeStep_def Let_def split: pdf_result.splits sum.splits)

lemma storeStep_failed_pdf:
  "storeStep env i c (PdfFailed ci e) = c"
  by (simp add: storeStep_def)

lemma storeStep_rendered:
  "storeStep env i c (PdfSuccess ci f) =
     c \<lparr> ipfsHash := Some [],
         ipfsError := Some ''ipfsService.computeContentHash is not a function'' \<rparr>"
  by (simp add: storeStep_def computeContentHash_def)

lemma compileResults_length:
  "length (compileResults bcs pdfs qrs i cs) = length cs"
  by (induction cs arbitrary: i) simp_all

lemma compileResults_nth:
  "k < length cs \<Longrightarrow>
   compileResults bcs pdfs qrs i cs ! k = compileRow bcs pdfs qrs (i + k) (cs ! k)"
proof (induction cs arbitrary: i k)
  case Nil
  then show ?case by simp
next
  case (Cons c cs)
  then show ?case by (cases k) simp_all
qed

lemma issueStep_calls:
  "\<exists>r. calls (issueStep net i c st) = calls st @ [(mkCall net c (nonce st), r)]"
  by (simp add: issueStep_def Let_def catchBlock_counts split: sum.splits)

lemma issueLoop_calls:
  "\<exists>xs. calls (issueLoop net i cs st) = calls st @ xs \<and>
        list_all2 (\<lambda>c x. \<exists>n. fst x = mkCall net c n) cs xs"
proof (induction cs arbitrary: i st)
  case Nil
  show ?case by simp
next
  case (Cons c cs)
  obtain r where r: "calls (issueStep net i c st) = calls st @ [(mkCall net c (nonce st), r)]"
    using issueStep_calls by blast
  from Cons.IH [of "Suc i" "issueStep net i c st"]
  obtain xs where xs: "calls (issueLoop net (Suc i) cs (issueStep net i c st))
                         = calls (issueStep net i c st) @ xs"
    and rel: "list_all2 (\<lambda>c x. \<exists>n. fst x = mkCall net c n) cs xs"
    by blast
  have "list_all2 (\<lambda>c x. \<exists>n. fst x = mkCall net c n) (c # cs) ((mkCall net c (nonce st), r) # xs)"
    using rel by auto
  with r xs show ?case
    by (intro exI [of _ "(mkCall net c (nonce st), r) # xs"]) simp
qed

lemma issueBatch_calls:
  assumes "issueBatch net cs = Inr st"
  shows "length (calls st) = length cs"
    and "k < length cs \<Longrightarrow> \<exists>n. fst (calls st ! k) = mkCall net (cs ! k) n"
proof -
  from assms obtain n0 where st: "st = issueLoop net 0 cs (initialState n0)"
    by (auto simp: issueBatch_def initialState_def split: sum.splits)
  from issueLoop_calls [of net 0 cs "initialState n0"] st
  obtain xs where xs: "calls st = xs" and rel: "list_all2 (\<lambda>c x. \<exists>n. fst x = mkCall net c n) cs xs"
    by (auto simp: initialState_def)
  from rel xs show "length (calls st) = length cs"
    by (simp add: list_all2_lengthD)
  from rel xs show "k < length cs \<Longrightarrow> \<exists>n. fst (calls st ! k) = mkCall net (cs ! k) n"
    by (simp add: list_all2_conv_all_nth)
qed

lemma issueBatch_results:
  assumes "issueBatch net cs = Inr st"
  shows "length (results st) = length cs"
proof -
  from assms obtain n0 where "st = issueLoop net 0 cs (initialState n0)"
    by (auto simp: issueBatch_def initialState_def split: sum.splits)
  with issueLoop_length [of net 0 cs "initialState n0"] show ?thesis
    by (simp add: initialState_def)
qed

text \<open>What a run of the pipeline to its end consists of.\<close>

lemma processPipeline_completed:
  assumes "processPipeline env job t s = Inr j"
  obtains certs1 certs st where
    "generateIds env 0 (records job) = (None, certs1)"
    "storeLoop env (renderLoop env t 0 certs1) 0 certs1 = Inr certs"
    "issueBatch (chain env) certs = Inr st"
    "status j = Completed"
    "records j = certs"
    "jobResults j = Some (compileResults (results st) (renderLoop env t 0 certs1)
                      (bulkGenerateQR env 0 (successfulCerts certs (results st))) 0 certs)"
  using assms
  by (auto simp: processPipeline_def bulkGeneratePDFs_def Let_def
           split: sum.splits option.splits if_splits prod.splits)

section \<open>The pipeline as a whole\<close>

lemma sample_fields:
  "certId alice = None" "certId bob = None" "certId carol = None"
  "row alice = 1" "row bob = 2" "row carol = 3"
  "ipfsHash alice = None" "ipfsHash bob = None" "ipfsHash carol = None"
  "documentHash alice = None" "documentHash bob = None" "documentHash carol = None"
  "ipfsPinned alice = None" "ipfsPinned bob = None" "ipfsPinned carol = None"
  "ipfsGateway alice = None" "ipfsGateway bob = None" "ipfsGateway carol = None"
  "email alice = None" "email bob = None" "email carol = None"
  by (simp_all add: alice_def bob_def carol_def withRow_def sampleRow_def)

lemma sample_ids:
  "generateCertificateId
     \<lparr> totalCertificates = Inr 41, fullYear = 2026, randomBase36 = ''0.abc1'' \<rparr>
     = Inr ''CERT-2026-042-ABC''"
  "generateCertificateId
     \<lparr> totalCertificates = Inr 41, fullYear = 2026, randomBase36 = ''0.q7z2'' \<rparr>
     = Inr ''CERT-2026-042-Q7Z''"
  "generateCertificateId
     \<lparr> totalCertificates = Inr 41, fullYear = 2026, randomBase36 = ''0.m4k8'' \<rparr>
     = Inr ''CERT-2026-042-M4K''"
  "generateCertificateId
     \<lparr> totalCertificates = Inr 41, fullYear = 2026, randomBase36 = ''0.k3x9a'' \<rparr>
     = Inr ''CERT-2026-042-K3X''"
  by code_simp+

lemmas sample_run =
  processPipeline_def sampleServices_def sampleJob_def sampleCerts_def bulkGeneratePDFs_def
  storeStep_def computeContentHash_def nthOpt_def issueBatch_def issueStep_def catchBlock_def successfulCerts_def
  compileRow_def strOrNull_def numOrNull_def distinctRandom_def sameRandom_def sample_ids
  sample_fields samplePdf_def sampleQr_def sampleUpload_def sampleReceipt_def Let_def

text \<open>
  C9: the identifier phase never touches a record that carries an identifier. Whatever
  the generator answers, and also when it throws, the phase returns an array of the same
  length in which every record that carried an identifier is unchanged and the others
  differ from the input in the identifier alone. A list whose records all carry an
  identifier is returned as it is, without an error; and after a run without an error
  every record carries an identifier, so that running the phase again, with any
  generator, returns the same list.
\<close>

theorem generating_ids_idempotent:
  "length (snd (generateIds env i certs)) = length certs \<and>
   (\<forall>k<length certs. truthy (certId (certs ! k)) \<longrightarrow>
      snd (generateIds env i certs) ! k = certs ! k) \<and>
   (\<forall>k<length certs.
      snd (generateIds env i certs) ! k =
        (certs ! k) \<lparr> certId := certId (snd (generateIds env i certs) ! k) \<rparr>) \<and>
   ((\<forall>c\<in>set certs. truthy (certId c)) \<longrightarrow> generateIds env i certs = (None, certs)) \<and>
   (\<forall>certs'. generateIds env i certs = (None, certs') \<longrightarrow>
      (\<forall>k<length certs. truthy (certId (certs' ! k))) \<and>
      (\<forall>env' i'. generateIds env' i' certs' = (None, certs')))"
proof -
  note kept = generateIds_kept [of certs env i]
  have a: "length (snd (generateIds env i certs)) = length certs"
    using kept by (simp add: list_all2_lengthD)
  have b: "\<forall>k<length certs. truthy (certId (certs ! k)) \<longrightarrow>
             snd (generateIds env i certs) ! k = certs ! k"
    using kept by (simp add: list_all2_conv_all_nth)
  have c: "\<forall>k<length certs.
             snd (generateIds env i certs) ! k =
               (certs ! k) \<lparr> certId := certId (snd (generateIds env i certs) ! k) \<rparr>"
    using kept by (simp add: list_all2_conv_all_nth)
  have d: "(\<forall>c\<in>set certs. truthy (certId c)) \<longrightarrow> generateIds env i certs = (None, certs)"
    by (simp add: generateIds_unchanged)
  have e: "\<forall>certs'. generateIds env i certs = (None, certs') \<longrightarrow>
      (\<forall>k<length certs. truthy (certId (certs' ! k))) \<and>
      (\<forall>env' i'. generateIds env' i' certs' = (None, certs'))"
  proof (rule allI, rule impI)
    fix certs'
    assume run: "generateIds env i certs = (None, certs')"
    note rel = generateIds_relation [OF run]
    have l: "length certs' = length certs"
      using rel by (simp add: list_all2_lengthD)
    have t: "\<forall>k<length certs. truthy (certId (certs' ! k))"
      using rel by (simp add: list_all2_conv_all_nth)
    from t l have "\<forall>c\<in>set certs'. truthy (certId c)"
      by (auto simp: in_set_conv_nth)
    then have "\<forall>env' i'. generateIds env' i' certs' = (None, certs')"
      by (simp add: generateIds_unchanged)
    with t show "(\<forall>k<length certs. truthy (certId (certs' ! k))) \<and>
      (\<forall>env' i'. generateIds env' i' certs' = (None, certs'))"
      by (intro conjI)
  qed
  from a b c d e show ?thesis by (intro conjI)
qed

text \<open>A generator whose network call fails.\<close>

lemma generateIds_thrown:
  "generateIds
     ((sampleServices True True acceptingNet distinctRandom)
        \<lparr> idSource := (\<lambda>i. \<lparr> totalCertificates = Inl ''could not detect network'',
                                fullYear = 2026, randomBase36 = ''0.abc1'' \<rparr>) \<rparr>)
     0 mixedCerts
   = (Some ''could not detect network'', mixedCerts)"
  by (simp add: mixedCerts_def sampleServices_def generateCertificateId_def sample_fields)

theorem generating_ids_idempotent_witness:
  "generateIds (sampleServices True True acceptingNet distinctRandom) 0 mixedCerts =
     (None, [alice \<lparr> certId := Some ''CERT-2025-007-XYZ'' \<rparr>,
             bob \<lparr> certId := Some ''CERT-2026-042-Q7Z'' \<rparr>]) \<and>
   generateIds (sampleServices True True acceptingNet sameRandom) 0
       [alice \<lparr> certId := Some ''CERT-2025-007-XYZ'' \<rparr>,
        bob \<lparr> certId := Some ''CERT-2026-042-Q7Z'' \<rparr>] =
     (None, [alice \<lparr> certId := Some ''CERT-2025-007-XYZ'' \<rparr>,
             bob \<lparr> certId := Some ''CERT-2026-042-Q7Z'' \<rparr>])"
proof -
  have run: "generateIds (sampleServices True True acceptingNet distinctRandom) 0 mixedCerts =
     (None, [alice \<lparr> certId := Some ''CERT-2025-007-XYZ'' \<rparr>,
             bob \<lparr> certId := Some ''CERT-2026-042-Q7Z'' \<rparr>])"
    by (simp add: mixedCerts_def sampleServices_def distinctRandom_def sample_ids sample_fields)
  note T = generating_ids_idempotent
             [of "sampleServices True True acceptingNet distinctRandom" 0 mixedCerts]
  from T run
  have "generateIds (sampleServices True True acceptingNet sameRandom) 0
          [alice \<lparr> certId := Some ''CERT-2025-007-XYZ'' \<rparr>,
           bob \<lparr> certId := Some ''CERT-2026-042-Q7Z'' \<rparr>] =
        (None, [alice \<lparr> certId := Some ''CERT-2025-007-XYZ'' \<rparr>,
                bob \<lparr> certId := Some ''CERT-2026-042-Q7Z'' \<rparr>])"
    by blast
  with run show ?thesis by simp
qed

lemma pipeline_records:
  assumes ids: "generateIds env 0 rs0 = (None, certs1)"
    and store: "storeLoop env (renderLoop env t 0 certs1) 0 certs1 = Inr certs"
  shows "length certs1 = length rs0"
    and "length certs = length rs0"
    and "k < length rs0 \<Longrightarrow>
           certs ! k = storeStep env k (certs1 ! k) (renderLoop env t 0 certs1 ! k)"
    and "k < length rs0 \<Longrightarrow> row (certs ! k) = row (rs0 ! k)"
    and "k < length rs0 \<Longrightarrow> certs1 ! k = (rs0 ! k) \<lparr> certId := certId (certs1 ! k) \<rparr>"
proof -
  show l1: "length certs1 = length rs0"
    using ids by (rule generateIds_length)
  have lp: "length (renderLoop env t 0 certs1) = length certs1"
    by (rule renderLoop_length)
  show "length certs = length rs0"
    using storeLoop_result [of 0 certs1 "renderLoop env t 0 certs1" env] store lp l1 by auto
  show nth: "certs ! k = storeStep env k (certs1 ! k) (renderLoop env t 0 certs1 ! k)"
    if "k < length rs0"
    using storeLoop_nth(2) [OF store lp, of k] that l1 by simp
  show "row (certs ! k) = row (rs0 ! k)" if "k < length rs0"
    using nth [OF that] generateIds_row [OF ids that] by (simp add: storeStep_kept)
  show "certs1 ! k = (rs0 ! k) \<lparr> certId := certId (certs1 ! k) \<rparr>" if "k < length rs0"
    using generateIds_relation [OF ids] that by (simp add: list_all2_conv_all_nth)
qed

text \<open>
  C5: when \<^verbatim>\<open>processPipeline\<close> runs to its end, the job is \<^verbatim>\<open>completed\<close>, its results
  hold exactly one entry for each record of the job, in order, each with the row number
  its record carries, and polling the job returns status \<^verbatim>\<open>completed\<close> with these
  results and no error; nothing in this depends on any record having succeeded at any
  stage. The row number a valid record carries is the 1-based position of its row in the
  validated input.
\<close>

theorem pipeline_completes_with_all_rows:
  "(\<forall>j. processPipeline env job t s = Inr j \<longrightarrow>
      status j = Completed \<and>
      (\<exists>rs. jobResults j = Some rs \<and> length rs = length (records job) \<and>
            (\<forall>k<length (records job). resRow (rs ! k) = row (records job ! k)) \<and>
            (\<forall>jobs jid. jobs jid = Some j \<longrightarrow>
               (\<exists>resp. getJobStatus jobs jid = Some resp \<and> respStatus resp = Completed \<and>
                       respResults resp = Some rs \<and> respError resp = None)))) \<and>
   (\<forall>c\<in>set (reportValid (validateBatch vd rows)).
      1 \<le> row c \<and> row c \<le> length rows \<and> c = withRow (rows ! (row c - 1)) (row c))"
proof (rule conjI)
  show "\<forall>j. processPipeline env job t s = Inr j \<longrightarrow>
      status j = Completed \<and>
      (\<exists>rs. jobResults j = Some rs \<and> length rs = length (records job) \<and>
            (\<forall>k<length (records job). resRow (rs ! k) = row (records job ! k)) \<and>
            (\<forall>jobs jid. jobs jid = Some j \<longrightarrow>
               (\<exists>resp. getJobStatus jobs jid = Some resp \<and> respStatus resp = Completed \<and>
                       respResults resp = Some rs \<and> respError resp = None)))"
  proof (rule allI, rule impI)
    fix j
    assume run: "processPipeline env job t s = Inr j"
    from run obtain certs1 certs st where
      ids: "generateIds env 0 (records job) = (None, certs1)"
      and store: "storeLoop env (renderLoop env t 0 certs1) 0 certs1 = Inr certs"
      and bc: "issueBatch (chain env) certs = Inr st"
      and compl: "status j = Completed"
      and recs: "records j = certs"
      and res: "jobResults j = Some (compileResults (results st) (renderLoop env t 0 certs1)
                  (bulkGenerateQR env 0 (successfulCerts certs (results st))) 0 certs)"
      by (rule processPipeline_completed)
    let ?rs = "compileResults (results st) (renderLoop env t 0 certs1)
                 (bulkGenerateQR env 0 (successfulCerts certs (results st))) 0 certs"
    note rec = pipeline_records [OF ids store]
    have len: "length ?rs = length (records job)"
      by (simp add: compileResults_length rec(2))
    have rows: "\<forall>k<length (records job). resRow (?rs ! k) = row (records job ! k)"
      by (simp add: compileResults_nth rec(2) rec(4) compileRow_def)
    have poll: "\<forall>jobs jid. jobs jid = Some j \<longrightarrow>
               (\<exists>resp. getJobStatus jobs jid = Some resp \<and> respStatus resp = Completed \<and>
                       respResults resp = Some ?rs \<and> respError resp = None)"
      by (simp add: getJobStatus_def compl res)
    from compl res len rows poll
    show "status j = Completed \<and>
      (\<exists>rs. jobResults j = Some rs \<and> length rs = length (records job) \<and>
            (\<forall>k<length (records job). resRow (rs ! k) = row (records job ! k)) \<and>
            (\<forall>jobs jid. jobs jid = Some j \<longrightarrow>
               (\<exists>resp. getJobStatus jobs jid = Some resp \<and> respStatus resp = Completed \<and>
                       respResults resp = Some rs \<and> respError resp = None)))"
      by blast
  qed
next
  show "\<forall>c\<in>set (reportValid (validateBatch vd rows)).
      1 \<le> row c \<and> row c \<le> length rows \<and> c = withRow (rows ! (row c - 1)) (row c)"
    using validateBatch_rows by blast
qed

text \<open>
  C3 (amended): in a run of the pipeline to its end, one chain submission is made for
  every record of the job, whatever the outcome of its document stage, and the record's
  compiled chain outcome is the one \<^verbatim>\<open>issueBatch\<close> reports at its position. A record
  whose document stage did not succeed is only kept out of the content-store phase: its
  digest and its content identifier stay as they were, and its submission carries the
  content reference the record already had (the empty one if it had none).
\<close>

theorem chain_submission_for_every_record:
  assumes "processPipeline env job t s = Inr j"
  shows "\<exists>st rs. issueBatch (chain env) (records j) = Inr st \<and> jobResults j = Some rs \<and>
           length (records j) = length (records job) \<and>
           length (calls st) = length (records job) \<and>
           (\<forall>k<length (records job).
              callCertId (fst (calls st ! k)) = certId (records j ! k) \<and>
              blockchain (rs ! k) = chainOutcome (Some (results st ! k)) \<and>
              (pdfStatus (pdf (rs ! k)) \<noteq> StageSuccess \<longrightarrow>
                 documentHash (records j ! k) = documentHash (records job ! k) \<and>
                 ipfsHash (records j ! k) = ipfsHash (records job ! k) \<and>
                 callIpfsHash (fst (calls st ! k)) = strOf (ipfsHash (records job ! k))))"
proof -
  from assms obtain certs1 certs st where
    ids: "generateIds env 0 (records job) = (None, certs1)"
    and store: "storeLoop env (renderLoop env t 0 certs1) 0 certs1 = Inr certs"
    and bc: "issueBatch (chain env) certs = Inr st"
    and compl: "status j = Completed"
    and recs: "records j = certs"
    and res: "jobResults j = Some (compileResults (results st) (renderLoop env t 0 certs1)
                (bulkGenerateQR env 0 (successfulCerts certs (results st))) 0 certs)"
    by (rule processPipeline_completed)
  let ?pdfs = "renderLoop env t 0 certs1"
  let ?rs = "compileResults (results st) ?pdfs
               (bulkGenerateQR env 0 (successfulCerts certs (results st))) 0 certs"
  note rec = pipeline_records [OF ids store]
  have lc: "length (calls st) = length (records job)"
    using issueBatch_calls(1) [OF bc] rec(2) by simp
  have lr: "length (results st) = length (records job)"
    using issueBatch_results [OF bc] rec(2) by simp
  have each: "callCertId (fst (calls st ! k)) = certId (certs ! k) \<and>
              blockchain (?rs ! k) = chainOutcome (Some (results st ! k)) \<and>
              (pdfStatus (pdf (?rs ! k)) \<noteq> StageSuccess \<longrightarrow>
                 documentHash (certs ! k) = documentHash (records job ! k) \<and>
                 ipfsHash (certs ! k) = ipfsHash (records job ! k) \<and>
                 callIpfsHash (fst (calls st ! k)) = strOf (ipfsHash (records job ! k)))"
    if k: "k < length (records job)" for k
  proof -
    from k rec(2) have kc: "k < length certs" by simp
    from issueBatch_calls(2) [OF bc kc] obtain n where
      call: "fst (calls st ! k) = mkCall (chain env) (certs ! k) n"
      by blast
    have row: "?rs ! k = compileRow (results st) ?pdfs
                 (bulkGenerateQR env 0 (successfulCerts certs (results st))) k (certs ! k)"
      using compileResults_nth [OF kc] by simp
    have a: "callCertId (fst (calls st ! k)) = certId (certs ! k)"
      by (simp add: call mkCall_def)
    have b: "blockchain (?rs ! k) = chainOutcome (Some (results st ! k))"
      using k lr by (simp add: row compileRow_def nthOpt_def)
    have c: "documentHash (certs ! k) = documentHash (records job ! k) \<and>
             ipfsHash (certs ! k) = ipfsHash (records job ! k) \<and>
             callIpfsHash (fst (calls st ! k)) = strOf (ipfsHash (records job ! k))"
      if nopdf: "pdfStatus (pdf (?rs ! k)) \<noteq> StageSuccess"
    proof -
      have kp: "k < length ?pdfs"
        using k rec(1) by (simp add: renderLoop_length)
      from nopdf kp have "pdfStatus (pdfOutcome (Some (?pdfs ! k))) \<noteq> StageSuccess"
        by (simp add: row compileRow_def nthOpt_def)
      then obtain ci e where "?pdfs ! k = PdfFailed ci e"
        by (cases "?pdfs ! k") simp_all
      with rec(3) [OF k] have same: "certs ! k = certs1 ! k"
        by (simp add: storeStep_failed_pdf)
      from rec(5) [OF k]
      have "documentHash (certs1 ! k) =
              documentHash ((records job ! k) \<lparr> certId := certId (certs1 ! k) \<rparr>)"
        and "ipfsHash (certs1 ! k) =
              ipfsHash ((records job ! k) \<lparr> certId := certId (certs1 ! k) \<rparr>)"
        by simp_all
      then have "documentHash (certs1 ! k) = documentHash (records job ! k)"
        and "ipfsHash (certs1 ! k) = ipfsHash (records job ! k)"
        by simp_all
      with same call show ?thesis
        by (simp add: mkCall_def strOf_def)
    qed
    from a b c show ?thesis by blast
  qed
  from bc recs res rec(2) lc each show ?thesis
    by (intro exI [of _ st] exI [of _ ?rs]) simp
qed

text \<open>
  The verification-code phase: its results carry the identifiers of its inputs, and its
  inputs are records at positions where the chain stage succeeded. When the identifiers
  of the records of a run are pairwise distinct, the lookup by identifier in the result
  compilation finds nothing for a record whose chain stage did not succeed.
\<close>


lemma bulkGenerateQR_ids:
  "map qrCertId (bulkGenerateQR env k cs) = map certId cs"
  by (induction cs arbitrary: k) (simp_all split: sum.splits)

lemma successfulCerts_member:
  assumes "c \<in> set (successfulCerts certs rs)"
  shows "\<exists>m. m < length certs \<and> m < length rs \<and> c = certs ! m \<and> isSuccess (rs ! m)"
proof -
  from assms obtain r where "(c, r) \<in> set (zip certs rs)" "isSuccess r"
    by (auto simp: successfulCerts_def)
  then show ?thesis
    by (auto simp: set_zip)
qed

lemma chainOutcome_status:
  "bcStatus (chainOutcome (Some r)) = StageSuccess \<longleftrightarrow> isSuccess r"
  by (cases r) simp_all

lemma find_None_qr:
  "find P qs = None \<Longrightarrow> qrStatus (qrOutcome (find P qs)) = StageSkipped"
  by simp

lemma qr_skipped_when_chain_failed:
  assumes run: "processPipeline env job t s = Inr j"
    and res: "jobResults j = Some rs"
    and k: "k < length (records j)"
    and dist: "distinct (map certId (records j))"
    and failed: "bcStatus (blockchain (rs ! k)) \<noteq> StageSuccess"
  shows "qr (rs ! k) = \<lparr> qrStatus = StageSkipped, qrOutFileName = None \<rparr>"
proof -
  from run obtain certs1 certs st where
    ids: "generateIds env 0 (records job) = (None, certs1)"
    and store: "storeLoop env (renderLoop env t 0 certs1) 0 certs1 = Inr certs"
    and bc: "issueBatch (chain env) certs = Inr st"
    and compl: "status j = Completed"
    and recs: "records j = certs"
    and res': "jobResults j = Some (compileResults (results st) (renderLoop env t 0 certs1)
                (bulkGenerateQR env 0 (successfulCerts certs (results st))) 0 certs)"
    by (rule processPipeline_completed)
  let ?qrs = "bulkGenerateQR env 0 (successfulCerts certs (results st))"
  from k recs have kc: "k < length certs" by simp
  have lr: "length (results st) = length certs"
    using bc by (rule issueBatch_results)
  from res res' have rs: "rs = compileResults (results st) (renderLoop env t 0 certs1) ?qrs 0 certs"
    by simp
  have row: "rs ! k = compileRow (results st) (renderLoop env t 0 certs1) ?qrs k (certs ! k)"
    unfolding rs using compileResults_nth [OF kc] by simp
  from failed row kc lr have nosucc: "\<not> isSuccess (results st ! k)"
    by (simp add: compileRow_def nthOpt_def chainOutcome_status)
  have "find (\<lambda>q. qrCertId q = certId (certs ! k)) ?qrs = None"
  proof (rule ccontr)
    assume "find (\<lambda>q. qrCertId q = certId (certs ! k)) ?qrs \<noteq> None"
    then obtain q where "q \<in> set ?qrs" "qrCertId q = certId (certs ! k)"
      by (auto simp: find_None_iff)
    then have "certId (certs ! k) \<in> set (map qrCertId ?qrs)"
      by force
    then have "certId (certs ! k) \<in> set (map certId (successfulCerts certs (results st)))"
      by (simp only: bulkGenerateQR_ids)
    then obtain c where c: "c \<in> set (successfulCerts certs (results st))"
      and same: "certId c = certId (certs ! k)"
      by auto
    from successfulCerts_member [OF c] obtain m where
      m: "m < length certs" "c = certs ! m" "isSuccess (results st ! m)"
      by blast
    from dist recs have "distinct (map certId certs)" by simp
    with m(1) kc same m(2) have "m = k"
      by (auto simp: distinct_conv_nth)
    with m(3) nosucc show False by simp
  qed
  then show ?thesis
    by (simp add: row compileRow_def)
qed


lemma pipeline_all_fail_run:
  "\<exists>j. processPipeline (sampleServices False False driftNet distinctRandom)
         (sampleJob sampleCerts) ''default-certificate'' False = Inr j"
  by (simp add: sample_run driftNet_def)

lemma pipeline_all_fail_rows:
  "pipelineRows (processPipeline (sampleServices False False driftNet distinctRandom)
         (sampleJob sampleCerts) ''default-certificate'' False) = Some [1, 2, 3]"
  "pipelineStages (processPipeline (sampleServices False False driftNet distinctRandom)
         (sampleJob sampleCerts) ''default-certificate'' False)
    = Some [(StageFailed, StageFailed, StageSkipped), (StageFailed, StageFailed, StageSkipped),
            (StageFailed, StageFailed, StageSkipped)]"
  by (simp_all add: sample_run driftNet_def pipelineRows_def pipelineStages_def rowStages_def)

theorem pipeline_completes_with_all_rows_witness:
  "pipelineStatus (processPipeline (sampleServices False False driftNet distinctRandom)
         (sampleJob sampleCerts) ''default-certificate'' False) = Some Completed \<and>
   pipelineRows (processPipeline (sampleServices False False driftNet distinctRandom)
         (sampleJob sampleCerts) ''default-certificate'' False) = Some [1, 2, 3] \<and>
   pipelineStages (processPipeline (sampleServices False False driftNet distinctRandom)
         (sampleJob sampleCerts) ''default-certificate'' False)
    = Some [(StageFailed, StageFailed, StageSkipped), (StageFailed, StageFailed, StageSkipped),
            (StageFailed, StageFailed, StageSkipped)]"
proof -
  from pipeline_all_fail_run obtain j where
    run: "processPipeline (sampleServices False False driftNet distinctRandom)
            (sampleJob sampleCerts) ''default-certificate'' False = Inr j"
    by blast
  from pipeline_completes_with_all_rows
         [of "sampleServices False False driftNet distinctRandom" "sampleJob sampleCerts"
             "''default-certificate''" False, THEN conjunct1, rule_format, OF run]
  have "status j = Completed" by blast
  with run pipeline_all_fail_rows show ?thesis
    by (simp add: pipelineStatus_def)
qed

lemma pipeline_no_document_run:
  "\<exists>j. processPipeline (sampleServices False True acceptingNet distinctRandom)
         (sampleJob sampleCerts) ''default-certificate'' False = Inr j"
  by (simp add: sample_run acceptingNet_def)

theorem chain_submission_for_every_record_witness:
  "\<exists>j st. processPipeline (sampleServices False True acceptingNet distinctRandom)
            (sampleJob sampleCerts) ''default-certificate'' False = Inr j \<and>
          issueBatch acceptingNet (records j) = Inr st \<and> length (calls st) = 3"
proof -
  from pipeline_no_document_run obtain j where
    run: "processPipeline (sampleServices False True acceptingNet distinctRandom)
            (sampleJob sampleCerts) ''default-certificate'' False = Inr j"
    by blast
  from chain_submission_for_every_record [OF run]
  obtain st where "issueBatch (chain (sampleServices False True acceptingNet distinctRandom))
                     (records j) = Inr st"
    and "length (calls st) = length (records (sampleJob sampleCerts))"
    by blast
  then have "issueBatch acceptingNet (records j) = Inr st \<and> length (calls st) = 3"
    by (simp add: sampleServices_def sampleJob_def sampleCerts_def)
  with run show ?thesis by blast
qed

text \<open>
  C3 as stated fails: with a renderer that fails for every record and a network that
  confirms every submission, each compiled row has a failed document stage, a successful
  chain stage and a transaction hash.
\<close>

theorem chain_without_document_counterexample:
  "pipelineStages (processPipeline (sampleServices False True acceptingNet distinctRandom)
         (sampleJob sampleCerts) ''default-certificate'' False)
    = Some [(StageFailed, StageSuccess, StageSuccess), (StageFailed, StageSuccess, StageSuccess),
            (StageFailed, StageSuccess, StageSuccess)] \<and>
   pipelineTxHashes (processPipeline (sampleServices False True acceptingNet distinctRandom)
         (sampleJob sampleCerts) ''default-certificate'' False)
    = Some [Some ''0xcc'', Some ''0xcc'', Some ''0xcc'']"
  by (simp add: sample_run acceptingNet_def pipelineStages_def rowStages_def pipelineTxHashes_def)

text \<open>In every run to the end, a record whose document was rendered is left by the
  content-store phase without a digest, with the empty content identifier and with the
  TypeError as its error; it is still submitted, with an empty content reference.\<close>

lemma rendered_record_has_no_digest:
  assumes run: "processPipeline env job t s = Inr j"
    and ids: "generateIds env 0 (records job) = (None, certs1)"
    and k: "k < length certs1"
    and pdf: "renderPdf env t k (certs1 ! k) = Inr f"
  shows "documentHash (records j ! k) = documentHash (records job ! k)"
    and "ipfsHash (records j ! k) = Some []"
    and "ipfsError (records j ! k) = Some ''ipfsService.computeContentHash is not a function''"
    and "\<exists>st. issueBatch (chain env) (records j) = Inr st \<and> k < length (calls st) \<and>
              callCertId (fst (calls st ! k)) = certId (records j ! k) \<and>
              callIpfsHash (fst (calls st ! k)) = []"
proof -
  from run obtain c1 certs st where
    ids': "generateIds env 0 (records job) = (None, c1)"
    and store: "storeLoop env (renderLoop env t 0 c1) 0 c1 = Inr certs"
    and bc: "issueBatch (chain env) certs = Inr st"
    and compl: "status j = Completed"
    and recs: "records j = certs"
    and res: "jobResults j = Some (compileResults (results st) (renderLoop env t 0 c1)
                (bulkGenerateQR env 0 (successfulCerts certs (results st))) 0 certs)"
    by (rule processPipeline_completed)
  from ids ids' have c1: "c1 = certs1" by simp
  note rec = pipeline_records [OF ids' store]
  from k rec(1) c1 have kj: "k < length (records job)" by simp
  from k pdf have "renderLoop env t 0 certs1 ! k = PdfSuccess (certId (certs1 ! k)) f"
    by (simp add: renderLoop_nth)
  with rec(3) [OF kj] c1
  have step: "certs ! k = (certs1 ! k) \<lparr> ipfsHash := Some [],
                ipfsError := Some ''ipfsService.computeContentHash is not a function'' \<rparr>"
    by (simp add: storeStep_rendered)
  from rec(5) [OF kj] c1
  have "documentHash (certs1 ! k) =
          documentHash ((records job ! k) \<lparr> certId := certId (certs1 ! k) \<rparr>)"
    by simp
  then have "documentHash (certs1 ! k) = documentHash (records job ! k)"
    by simp
  then show "documentHash (records j ! k) = documentHash (records job ! k)"
    by (simp add: recs step)
  show h: "ipfsHash (records j ! k) = Some []"
    by (simp add: recs step)
  show "ipfsError (records j ! k) = Some ''ipfsService.computeContentHash is not a function''"
    by (simp add: recs step)
  from kj rec(2) have kc: "k < length certs" by simp
  from issueBatch_calls(2) [OF bc kc] obtain n where
    call: "fst (calls st ! k) = mkCall (chain env) (certs ! k) n"
    by blast
  have "callCertId (fst (calls st ! k)) = certId (certs ! k)"
    and "callIpfsHash (fst (calls st ! k)) = []"
    by (simp_all add: call mkCall_def step)
  moreover have "k < length (calls st)"
    using issueBatch_calls(1) [OF bc] kc by simp
  ultimately show "\<exists>st. issueBatch (chain env) (records j) = Inr st \<and> k < length (calls st) \<and>
              callCertId (fst (calls st ! k)) = certId (records j ! k) \<and>
              callIpfsHash (fst (calls st ! k)) = []"
    using bc recs by blast
qed

text \<open>
  C4: a batch of three records whose documents are all rendered, with a content store
  that accepts every upload and a network that confirms every submission. The job is
  completed and every record has a transaction hash, but no compiled row carries a
  digest or a content identifier: the call of \<^verbatim>\<open>ipfsService.computeContentHash\<close> throws
  inside the \<^verbatim>\<open>try\<close>, before the digest is assigned and before the upload is tried.
\<close>

theorem digest_never_recorded:
  "pipelineStatus (processPipeline (sampleServices True True acceptingNet distinctRandom)
         (sampleJob sampleCerts) ''default-certificate'' False) = Some Completed \<and>
   pipelineStages (processPipeline (sampleServices True True acceptingNet distinctRandom)
         (sampleJob sampleCerts) ''default-certificate'' False)
     = Some [(StageSuccess, StageSuccess, StageSuccess), (StageSuccess, StageSuccess, StageSuccess),
             (StageSuccess, StageSuccess, StageSuccess)] \<and>
   pipelineDigests (processPipeline (sampleServices True True acceptingNet distinctRandom)
         (sampleJob sampleCerts) ''default-certificate'' False) = Some [None, None, None] \<and>
   pipelineContentIds (processPipeline (sampleServices True True acceptingNet distinctRandom)
         (sampleJob sampleCerts) ''default-certificate'' False) = Some [None, None, None] \<and>
   pipelineTxHashes (processPipeline (sampleServices True True acceptingNet distinctRandom)
         (sampleJob sampleCerts) ''default-certificate'' False)
     = Some [Some ''0xcc'', Some ''0xcc'', Some ''0xcc'']"
  by (simp add: sample_run acceptingNet_def pipelineStatus_def pipelineStages_def rowStages_def
        pipelineDigests_def pipelineContentIds_def pipelineTxHashes_def)

text \<open>
  C8: two records for which the generator returned the same identifier (the on-chain
  count and the random text repeat); the network confirms the first submission and
  rejects the second. The verification code is generated for the first record only, yet
  the compiled row of the second record, whose chain stage failed, carries a
  verification code with status success.
\<close>

theorem qr_for_failed_record:
  "pipelineIds (processPipeline (sampleServices True True firstOnlyNet sameRandom)
       (sampleJob (take 2 sampleCerts)) ''default-certificate'' False)
     = Some [Some ''CERT-2026-042-K3X'', Some ''CERT-2026-042-K3X''] \<and>
   pipelineStages (processPipeline (sampleServices True True firstOnlyNet sameRandom)
       (sampleJob (take 2 sampleCerts)) ''default-certificate'' False)
     = Some [(StageSuccess, StageSuccess, StageSuccess), (StageSuccess, StageFailed, StageSuccess)]"
  by (simp add: sample_run firstOnlyNet_def pipelineIds_def pipelineStages_def rowStages_def)

section \<open>The identifier format\<close>

lemma of_char_digitChar: "d < 10 \<Longrightarrow> (of_char (digitChar d) :: nat) = 48 + d"
  by (simp add: digitChar_def)

lemma isDigit_digitChar: "d < 10 \<Longrightarrow> isDigit (digitChar d)"
  by (simp add: isDigit_def of_char_digitChar)

lemma showNat_digits: "list_all isDigit (showNat n)"
proof (induction n rule: showNat.induct)
  case (1 n)
  show ?case
  proof (cases "n < 10")
    case True
    then show ?thesis by (subst showNat.simps) (simp add: isDigit_digitChar)
  next
    case False
    with "1" show ?thesis by (subst showNat.simps) (simp add: isDigit_digitChar)
  qed
qed

lemma showNat_nonempty: "showNat n \<noteq> []"
  by (subst showNat.simps) simp

lemma readNat_snoc: "readNat (s @ [c]) = 10 * readNat s + ((of_char c :: nat) - 48)"
  by (simp add: readNat_def)

lemma readNat_showNat: "readNat (showNat n) = n"
proof (induction n rule: showNat.induct)
  case (1 n)
  show ?case
  proof (cases "n < 10")
    case True
    then show ?thesis by (subst showNat.simps) (simp add: readNat_def of_char_digitChar)
  next
    case False
    with "1" show ?thesis
      by (subst showNat.simps) (simp add: readNat_snoc of_char_digitChar)
  qed
qed

lemma readNat_zeros: "readNat (replicate k (CHR ''0'') @ s) = readNat s"
  by (induction k) (simp_all add: readNat_def)

lemma splitDash_plain: "CHR ''-'' \<notin> set a \<Longrightarrow> splitDash a = [a]"
  by (induction a) (auto split: list.splits)

lemma splitDash_field:
  "CHR ''-'' \<notin> set a \<Longrightarrow> splitDash (a @ CHR ''-'' # rest) = a # splitDash rest"
  by (induction a) (auto split: list.splits)

lemma isDigit_not_dash: "isDigit c \<Longrightarrow> c \<noteq> CHR ''-''"
  by (auto simp: isDigit_def)

lemma isBase36Upper_not_dash: "isBase36Upper c \<Longrightarrow> c \<noteq> CHR ''-''"
  by (auto simp: isBase36Upper_def isDigit_def)

lemma upperChar_base36: "isBase36Lower c \<Longrightarrow> isBase36Upper (upperChar c)"
  by (auto simp: isBase36Lower_def isBase36Upper_def upperChar_def isDigit_def)

lemma randomSuffix_shape:
  assumes "isRandomText r"
  shows "length (randomSuffix r) \<le> 3" and "list_all isBase36Upper (randomSuffix r)"
proof -
  show "length (randomSuffix r) \<le> 3"
    by (simp add: randomSuffix_def toUpperCase_def substring_def)
  from assms have "list_all isBase36Lower (drop 2 r)"
    by (auto simp: isRandomText_def)
  then have "list_all isBase36Lower (take 3 (drop 2 r))"
    by (auto simp: list_all_iff dest: in_set_takeD)
  then show "list_all isBase36Upper (randomSuffix r)"
    by (auto simp: randomSuffix_def toUpperCase_def substring_def list_all_iff upperChar_base36)
qed

text \<open>
  C7 (amended): for an on-chain count below \<open>2 ^ 53\<close>, every identifier the generator
  returns reads \<^verbatim>\<open>CERT-<year>-<sequence>-<suffix>\<close>: four fields between dashes, where
  the year field is the decimal text of the calendar year, the sequence field is the
  decimal text of the count plus one, padded with zeros on the left to at least three
  digits, and the suffix is made of the characters at positions 2 to 4 of the random
  text in base 36, in upper case: at most three characters, digits or capital letters.
\<close>

theorem certificate_id_format:
  assumes "totalCertificates src = Inr count"
    and "count < 2 ^ 53"
    and "isRandomText (randomBase36 src)"
  shows "\<exists>y q r. generateCertificateId src = Inr (''CERT-'' @ y @ ''-'' @ q @ ''-'' @ r) \<and>
           splitDash (''CERT-'' @ y @ ''-'' @ q @ ''-'' @ r) = [''CERT'', y, q, r] \<and>
           list_all isDigit y \<and> readNat y = fullYear src \<and>
           list_all isDigit q \<and> 3 \<le> length q \<and> readNat q = count + 1 \<and>
           r = toUpperCase (substring 2 5 (randomBase36 src)) \<and>
           length r \<le> 3 \<and> list_all isBase36Upper r"
proof -
  let ?y = "showNat (fullYear src)"
  let ?q = "sequenceText count"
  let ?r = "randomSuffix (randomBase36 src)"
  have gen: "generateCertificateId src = Inr (''CERT-'' @ ?y @ ''-'' @ ?q @ ''-'' @ ?r)"
    using assms(1) by (simp add: generateCertificateId_def)
  have yd: "list_all isDigit ?y"
    by (rule showNat_digits)
  have qd: "list_all isDigit ?q"
    using showNat_digits [of "count + 1"]
    by (auto simp: sequenceText_def padStart_def isDigit_def list_all_iff)
  have ql: "3 \<le> length ?q"
    by (simp add: sequenceText_def padStart_def)
  have qv: "readNat ?q = count + 1"
    by (simp add: sequenceText_def padStart_def readNat_zeros readNat_showNat)
  note rs = randomSuffix_shape [OF assms(3)]
  have ny: "CHR ''-'' \<notin> set ?y"
    using yd isDigit_not_dash by (auto simp: list_all_iff)
  have nq: "CHR ''-'' \<notin> set ?q"
    using qd isDigit_not_dash by (auto simp: list_all_iff)
  have nr: "CHR ''-'' \<notin> set ?r"
    using rs(2) isBase36Upper_not_dash by (auto simp: list_all_iff)
  have nc: "CHR ''-'' \<notin> set ''CERT''"
    by simp
  have "splitDash (''CERT'' @ CHR ''-'' # (?y @ CHR ''-'' # (?q @ CHR ''-'' # ?r)))
          = [''CERT'', ?y, ?q, ?r]"
    by (simp only: splitDash_field [OF nc] splitDash_field [OF ny] splitDash_field [OF nq]
          splitDash_plain [OF nr])
  then have sp: "splitDash (''CERT-'' @ ?y @ ''-'' @ ?q @ ''-'' @ ?r) = [''CERT'', ?y, ?q, ?r]"
    by simp
  have rv: "?r = toUpperCase (substring 2 5 (randomBase36 src))"
    by (simp add: randomSuffix_def)
  from gen sp yd qd ql qv rv rs readNat_showNat [of "fullYear src"] show ?thesis
    by blast
qed

theorem certificate_id_format_witness:
  "generateCertificateId
     \<lparr> totalCertificates = Inr 41, fullYear = 2026, randomBase36 = ''0.q7z2'' \<rparr>
     = Inr ''CERT-2026-042-Q7Z'' \<and>
   splitDash ''CERT-2026-042-Q7Z'' = [''CERT'', ''2026'', ''042'', ''Q7Z''] \<and>
   readNat ''2026'' = 2026 \<and> readNat ''042'' = 41 + 1 \<and>
   (41 :: nat) < 2 ^ 53 \<and> isRandomText ''0.q7z2''"
proof -
  let ?src = "\<lparr> totalCertificates = Inr 41, fullYear = 2026, randomBase36 = ''0.q7z2'' \<rparr>"
  have c: "totalCertificates ?src = Inr 41" by simp
  have b: "(41 :: nat) < 2 ^ 53" by simp
  have r: "isRandomText ''0.q7z2''"
    by (simp add: isRandomText_def isBase36Lower_def isDigit_def)
  then have r': "isRandomText (randomBase36 ?src)" by simp
  from certificate_id_format [OF c b r']
  obtain y q s where gen: "generateCertificateId ?src = Inr (''CERT-'' @ y @ ''-'' @ q @ ''-'' @ s)"
    and sp: "splitDash (''CERT-'' @ y @ ''-'' @ q @ ''-'' @ s) = [''CERT'', y, q, s]"
    and yv: "readNat y = fullYear ?src" and qv: "readNat q = 41 + 1"
    by blast
  have ev: "generateCertificateId ?src = Inr ''CERT-2026-042-Q7Z''"
    by (rule sample_ids)
  have split: "splitDash ''CERT-2026-042-Q7Z'' = [''CERT'', ''2026'', ''042'', ''Q7Z'']"
    by simp
  from gen ev have "''CERT-'' @ y @ ''-'' @ q @ ''-'' @ s = ''CERT-2026-042-Q7Z''"
    by simp
  with sp split have "y = ''2026''" "q = ''042''"
    by simp_all
  with yv qv have "readNat ''2026'' = 2026" "readNat ''042'' = 41 + 1"
    by simp_all
  with ev split b r show ?thesis by simp
qed

text \<open>
  C7 as stated fails: the random suffix of a generated identifier has three characters,
  not four.
\<close>

theorem certificate_id_suffix_counterexample:
  "generateCertificateId
     \<lparr> totalCertificates = Inr 0, fullYear = 2026, randomBase36 = ''0.abcdefgh'' \<rparr>
     = Inr ''CERT-2026-001-ABC'' \<and>
   length (randomSuffix ''0.abcdefgh'') = 3"
  by code_simp

end
